theory Spec2Isabelle
  imports Complex_Main "HOL-Library.AList"
begin

section \<open>Strings\<close>

text \<open>
  A JavaScript string is modelled as a HOL \<open>string\<close>, one \<open>char\<close> per code unit
  (code units above 0xFF are outside the model). \<open>is_space\<close> is the class \<open>\s\<close> of
  a JavaScript regular expression and of \<open>String.prototype.trim\<close>, restricted to
  these code units: TAB, LF, VT, FF, CR, SPACE and NBSP.
\<close>

definition is_space :: "char \<Rightarrow> bool" where
  "is_space c = (c \<in> set [CHR 0x09, CHR 0x0A, CHR 0x0B, CHR 0x0C, CHR 0x0D, CHR 0x20, CHR 0xA0])"

definition trim :: "string \<Rightarrow> string" where
  "trim s = rev (dropWhile is_space (rev (dropWhile is_space s)))"

text \<open>\<^verbatim>\<open>s.replace(/\n/g, " ")\<close>: every line feed becomes a space.\<close>

definition replace_newlines :: "string \<Rightarrow> string" where
  "replace_newlines s = map (\<lambda>c. if c = CHR 0x0A then CHR 0x20 else c) s"

text \<open>
  \<^verbatim>\<open>s.replace(/\\n/g, " ")\<close> as step 3.5 of the rich indexer writes it: the pattern is
  a backslash followed by the letter n (two characters), not a line feed.
\<close>

fun replace_backslash_n :: "string \<Rightarrow> string" where
  "replace_backslash_n (a # b # cs) =
     (if a = CHR 0x5C \<and> b = CHR ''n'' then CHR 0x20 # replace_backslash_n cs
      else a # replace_backslash_n (b # cs))"
| "replace_backslash_n cs = cs"

text \<open>
  \<^verbatim>\<open>s.replace(/\s+/g, " ")\<close>: every maximal run of white space becomes one space. The
  flag says that the previous character belonged to a run already replaced.
\<close>

fun collapse_from :: "bool \<Rightarrow> string \<Rightarrow> string" where
  "collapse_from b [] = []"
| "collapse_from b (c # cs) =
     (if is_space c then (if b then collapse_from True cs else CHR 0x20 # collapse_from True cs)
      else c # collapse_from False cs)"

definition collapse_whitespace :: "string \<Rightarrow> string" where
  "collapse_whitespace s = collapse_from False s"

text \<open>A template literal renders a non-negative integer in decimal.\<close>

definition digit_char :: "nat \<Rightarrow> char" where
  "digit_char n = ''0123456789'' ! (n mod 10)"

function decimal :: "nat \<Rightarrow> string" where
  "decimal n = (if 10 \<le> n then decimal (n div 10) @ [digit_char n] else [digit_char n])"
  by pat_completeness auto
termination
  by (relation "measure id") auto

declare decimal.simps [simp del]

text \<open>The marker value \<^verbatim>\<open>`gwa-element-${visibleIndex}`\<close>.\<close>

definition marker :: "nat \<Rightarrow> string" where
  "marker n = ''gwa-element-'' @ decimal n"

section \<open>The document\<close>

text \<open>
  An element carries what the scripts read from it: its lower-cased tag name
  (\<^verbatim>\<open>tagName.toLowerCase()\<close>), its attributes in order, the computed style properties
  \<^verbatim>\<open>display\<close>, \<^verbatim>\<open>visibility\<close> and \<^verbatim>\<open>pointer-events\<close>, \<^verbatim>\<open>offsetWidth\<close> and
  \<^verbatim>\<open>offsetHeight\<close> (integers), the rectangle of \<^verbatim>\<open>getBoundingClientRect()\<close>, the
  rendered \<^verbatim>\<open>innerText\<close>, and the properties assigned through \<^verbatim>\<open>element.style\<close>.
  Lengths are rationals: rounding of IEEE doubles is not modelled.
\<close>

datatype css_value = Px rat | Keyword string

record element =
  tagName :: string
  attributes :: "(string \<times> string) list"
  display :: string
  visibility :: string
  pointerEvents :: string
  offsetWidth :: int
  offsetHeight :: int
  rect_top :: rat
  rect_left :: rat
  rect_width :: rat
  rect_height :: rat
  innerText :: string
  style :: "(string \<times> css_value) list"

definition rect_bottom :: "element \<Rightarrow> rat" where
  "rect_bottom e = rect_top e + rect_height e"

definition rect_right :: "element \<Rightarrow> rat" where
  "rect_right e = rect_left e + rect_width e"

text \<open>
  The document is a tree of text nodes and elements; \<open>document\<close> is the list of the
  children of the document node. An element is referred to by its path from the root,
  innermost index first, so that \<open>parentElement\<close> is the tail of the path; the empty
  path is \<^verbatim>\<open>null\<close>.
\<close>

datatype node = Text string | Elem element "node list"

type_synonym document = "node list"

type_synonym ref = "nat list"

definition null_ref :: ref where
  "null_ref = []"

fun node_at_path :: "node list \<Rightarrow> nat list \<Rightarrow> node option" where
  "node_at_path ns [] = None"
| "node_at_path ns (i # p) =
     (if i < length ns then
        (if p = [] then Some (ns ! i)
         else (case ns ! i of Elem e cs \<Rightarrow> node_at_path cs p | Text s \<Rightarrow> None))
      else None)"

definition element_at :: "document \<Rightarrow> ref \<Rightarrow> element option" where
  "element_at d r = (case node_at_path d (rev r) of Some (Elem e cs) \<Rightarrow> Some e | _ \<Rightarrow> None)"

definition childNodes :: "document \<Rightarrow> ref \<Rightarrow> node list" where
  "childNodes d r =
     (if r = [] then d
      else (case node_at_path d (rev r) of Some (Elem e cs) \<Rightarrow> cs | _ \<Rightarrow> []))"

definition parentElement :: "ref \<Rightarrow> ref" where
  "parentElement r = tl r"

text \<open>\<^verbatim>\<open>a.contains(b)\<close>: \<open>b\<close> is \<open>a\<close> or a descendant of \<open>a\<close>.\<close>

definition contains :: "ref \<Rightarrow> ref \<Rightarrow> bool" where
  "contains a b = (a \<noteq> [] \<and> length a \<le> length b \<and> drop (length b - length a) b = a)"

fun text_of :: "node \<Rightarrow> string" and text_of_list :: "node list \<Rightarrow> string" where
  "text_of (Text s) = s"
| "text_of (Elem e cs) = text_of_list cs"
| "text_of_list [] = []"
| "text_of_list (n # ns) = text_of n @ text_of_list ns"

definition textContent :: "document \<Rightarrow> ref \<Rightarrow> string" where
  "textContent d r = text_of_list (childNodes d r)"

definition attr :: "element \<Rightarrow> string \<Rightarrow> string option" where
  "attr e k = map_of (attributes e) k"

definition getAttribute :: "document \<Rightarrow> ref \<Rightarrow> string \<Rightarrow> string option" where
  "getAttribute d r k = (case element_at d r of Some e \<Rightarrow> attr e k | None \<Rightarrow> None)"

text \<open>\<^verbatim>\<open>element.id\<close> reflects the \<^verbatim>\<open>id\<close> attribute, the empty string when absent.\<close>

definition element_id :: "element \<Rightarrow> string" where
  "element_id e = (case attr e ''id'' of Some v \<Rightarrow> v | None \<Rightarrow> [])"

text \<open>
  \<^verbatim>\<open>input.type\<close> reflects the \<^verbatim>\<open>type\<close> attribute, matched without regard to ASCII
  case; the scripts compare it with \<^verbatim>\<open>"radio"\<close> and \<^verbatim>\<open>"checkbox"\<close> only.
\<close>

definition ascii_lower :: "char \<Rightarrow> char" where
  "ascii_lower c =
     (case map_of (zip ''ABCDEFGHIJKLMNOPQRSTUVWXYZ'' ''abcdefghijklmnopqrstuvwxyz'') c of
        Some l \<Rightarrow> l | None \<Rightarrow> c)"

definition input_type_is :: "element \<Rightarrow> string \<Rightarrow> bool" where
  "input_type_is e t = (case attr e ''type'' of Some v \<Rightarrow> map ascii_lower v = t | None \<Rightarrow> False)"

subsection \<open>Queries in document order\<close>

text \<open>
  \<open>select P p i ns\<close> lists, in document order, the elements satisfying \<open>P\<close> among the
  nodes \<open>ns\<close> and their descendants, where \<open>ns\<close> are the children from index \<open>i\<close> on of
  the node \<open>p\<close>.
\<close>

fun select :: "(element \<Rightarrow> bool) \<Rightarrow> ref \<Rightarrow> nat \<Rightarrow> node list \<Rightarrow> ref list" where
  "select P p i [] = []"
| "select P p i (Text s # rest) = select P p (Suc i) rest"
| "select P p i (Elem e cs # rest) =
     (if P e then [i # p] else []) @ select P (i # p) 0 cs @ select P p (Suc i) rest"

definition querySelectorAll :: "document \<Rightarrow> (element \<Rightarrow> bool) \<Rightarrow> ref list" where
  "querySelectorAll d P = select P [] 0 d"

definition querySelector :: "document \<Rightarrow> (element \<Rightarrow> bool) \<Rightarrow> ref" where
  "querySelector d P = (case querySelectorAll d P of [] \<Rightarrow> null_ref | r # rs \<Rightarrow> r)"

definition getElementsByTagName :: "document \<Rightarrow> ref \<Rightarrow> string \<Rightarrow> ref list" where
  "getElementsByTagName d r t = select (\<lambda>e. tagName e = t) r 0 (childNodes d r)"

subsection \<open>Attribute updates\<close>

fun update_path :: "(element \<Rightarrow> element) \<Rightarrow> nat list \<Rightarrow> node list \<Rightarrow> node list" where
  "update_path f [] ns = ns"
| "update_path f (i # p) ns =
     (if i < length ns then
        (case ns ! i of
           Elem e cs \<Rightarrow> ns[i := (if p = [] then Elem (f e) cs else Elem e (update_path f p cs))]
         | Text s \<Rightarrow> ns)
      else ns)"

definition setAttribute :: "document \<Rightarrow> ref \<Rightarrow> string \<Rightarrow> string \<Rightarrow> document" where
  "setAttribute d r k v =
     update_path (\<lambda>e. e\<lparr>attributes := AList.update k v (attributes e)\<rparr>) (rev r) d"

text \<open>
  \<^verbatim>\<open>document.querySelectorAll("[k]").forEach((el) => el.removeAttribute("k"))\<close>: the
  attribute goes from every element that has it.
\<close>

fun removeAttributeAll :: "string \<Rightarrow> node list \<Rightarrow> node list" where
  "removeAttributeAll k [] = []"
| "removeAttributeAll k (Text s # rest) = Text s # removeAttributeAll k rest"
| "removeAttributeAll k (Elem e cs # rest) =
     Elem (e\<lparr>attributes := AList.delete k (attributes e)\<rparr>) (removeAttributeAll k cs)
       # removeAttributeAll k rest"

section \<open>The window\<close>

text \<open>
  What the scripts read from \<^verbatim>\<open>window\<close> and from the layout of the page:
  \<^verbatim>\<open>innerHeight\<close>, \<^verbatim>\<open>innerWidth\<close>, the \<^verbatim>\<open>clientHeight\<close> and \<^verbatim>\<open>clientWidth\<close> of
  \<^verbatim>\<open>document.documentElement\<close>, the scroll offsets, and the hit test
  \<^verbatim>\<open>document.elementFromPoint(x, y)\<close>, which answers \<open>null_ref\<close> where no element is
  hit. Marker attributes do not take part in the layout.
\<close>

record window =
  innerHeight :: rat
  innerWidth :: rat
  clientHeight :: rat
  clientWidth :: rat
  scrollX :: rat
  scrollY :: rat
  elementFromPoint :: "rat \<Rightarrow> rat \<Rightarrow> ref"

text \<open>\<^verbatim>\<open>a || b\<close> on numbers: \<open>b\<close> when \<open>a\<close> is zero.\<close>

definition js_or :: "rat \<Rightarrow> rat \<Rightarrow> rat" where
  "js_or a b = (if a = 0 then b else a)"

section \<open>Errors\<close>

text \<open>
  \<open>SyntaxError\<close>: \<^verbatim>\<open>querySelector\<close> on a selector that does not parse.
  \<open>TypeError\<close>: a property read from \<^verbatim>\<open>null\<close>.
\<close>

datatype error = SyntaxError | TypeError

text \<open>
  The selector \<^verbatim>\<open>`label[for="${element.id}"]`\<close> is built by pasting the id between
  double quotes. For an id free of double quotes, backslashes and line breaks it selects
  the labels whose \<^verbatim>\<open>for\<close> attribute is the id, and \<^verbatim>\<open>querySelector\<close> answers the
  first in document order. Any other id ends or escapes the quoted string: the selector
  is not the intended one and in general does not parse, which the model reports as
  \<open>SyntaxError\<close>. Where such a selector does parse (an escape inside the string, further
  selector text after the closing quote) the browser answers another query than the
  intended one; the model gives the error value there as well, so the scan of a page with
  such an id on an element that reaches this query is not described by the model.
\<close>

definition css_plain :: "char \<Rightarrow> bool" where
  "css_plain c = (c \<notin> set [CHR 0x22, CHR 0x5C, CHR 0x0A, CHR 0x0C, CHR 0x0D])"

definition query_label_for :: "document \<Rightarrow> string \<Rightarrow> error + ref" where
  "query_label_for d ident =
     (if list_all css_plain ident
      then Inr (querySelector d (\<lambda>e. tagName e = ''label'' \<and> attr e ''for'' = Some ident))
      else Inl SyntaxError)"

section \<open>The element indexer: shared functions\<close>

text \<open>Lines 17-26 of both indexers.\<close>

fun isHiddenByAncestors :: "document \<Rightarrow> ref \<Rightarrow> bool" where
  "isHiddenByAncestors d [] = False"
| "isHiddenByAncestors d (i # p) =
     (case element_at d (i # p) of
        None \<Rightarrow> False
      | Some e \<Rightarrow>
          if display e = ''none'' \<or> visibility e = ''hidden'' then True
          else isHiddenByAncestors d p)"

text \<open>
  Lines 36-42: from \<open>inputParent\<close> upwards, the first ancestor that contains the
  associated label.
\<close>

fun commonParent :: "document \<Rightarrow> ref \<Rightarrow> ref \<Rightarrow> ref option" where
  "commonParent d [] associatedLabel = None"
| "commonParent d (i # p) associatedLabel =
     (case element_at d (i # p) of
        None \<Rightarrow> None
      | Some e \<Rightarrow>
          if contains (i # p) associatedLabel then Some (i # p)
          else commonParent d p associatedLabel)"

text \<open>
  Lines 47-63: from \<open>parent\<close> upwards, the first ancestor that is a label, or that has a
  label among its descendants whose \<^verbatim>\<open>for\<close> is the element's id or which contains the
  element.
\<close>

fun labelParent :: "document \<Rightarrow> ref \<Rightarrow> string \<Rightarrow> ref \<Rightarrow> ref option" where
  "labelParent d element ident [] = None"
| "labelParent d element ident (i # p) =
     (case element_at d (i # p) of
        None \<Rightarrow> None
      | Some e \<Rightarrow>
          if tagName e = ''label'' then Some (i # p)
          else if list_ex (\<lambda>label. getAttribute d label ''for'' = Some ident \<or> contains label element)
                    (getElementsByTagName d (i # p) ''label'')
          then Some (i # p)
          else labelParent d element ident p)"

text \<open>Lines 28-66 of both indexers. A reference that is no element is answered as it is.\<close>

definition getParentWithLabel :: "document \<Rightarrow> ref \<Rightarrow> error + ref" where
  "getParentWithLabel d element =
     (case element_at d element of
        None \<Rightarrow> Inr element
      | Some e \<Rightarrow>
          (case (if element_id e \<noteq> []
                 then (case query_label_for d (element_id e) of
                         Inl err \<Rightarrow> Inl err
                       | Inr associatedLabel \<Rightarrow>
                           Inr (if associatedLabel \<noteq> null_ref
                                then commonParent d (parentElement element) associatedLabel
                                else None))
                 else Inr None) of
             Inl err \<Rightarrow> Inl err
           | Inr (Some inputParent) \<Rightarrow> Inr inputParent
           | Inr None \<Rightarrow>
               (case labelParent d element (element_id e) (parentElement element) of
                  Some parent \<Rightarrow> Inr parent
                | None \<Rightarrow> Inr element)))"

text \<open>
  Lines 126-139: from the element hit at the centre upwards, a label whose \<^verbatim>\<open>for\<close> is
  the input's id, or a node that contains the input.
\<close>

fun hitsLabelOrContainer :: "document \<Rightarrow> ref \<Rightarrow> string \<Rightarrow> ref \<Rightarrow> bool" where
  "hitsLabelOrContainer d element ident [] = False"
| "hitsLabelOrContainer d element ident (i # p) =
     (case element_at d (i # p) of
        None \<Rightarrow> False
      | Some e \<Rightarrow>
          if tagName e = ''label'' \<and> attr e ''for'' = Some ident then True
          else if contains (i # p) element then True
          else hitsLabelOrContainer d element ident p)"

text \<open>Lines 103-112: the size of the label-bearing parent of a small toggle.\<close>

definition smallParentHidden :: "document \<Rightarrow> ref \<Rightarrow> error + bool" where
  "smallParentHidden d element =
     (case getParentWithLabel d element of
        Inl err \<Rightarrow> Inl err
      | Inr parentWithLabel \<Rightarrow>
          if parentWithLabel \<noteq> element then
            (case element_at d parentWithLabel of
               None \<Rightarrow> Inr False
             | Some pe \<Rightarrow> Inr (rect_width pe \<le> 1 \<or> rect_height pe \<le> 1))
          else Inr False)"

definition isToggle :: "element \<Rightarrow> bool" where
  "isToggle e = (tagName e = ''input'' \<and> (input_type_is e ''radio'' \<or> input_type_is e ''checkbox''))"

definition isSmallFormElement :: "element \<Rightarrow> bool" where
  "isSmallFormElement e = (isToggle e \<and> offsetWidth e \<le> 1 \<and> offsetHeight e \<le> 1)"

definition inViewport :: "window \<Rightarrow> element \<Rightarrow> bool" where
  "inViewport w e =
     (rect_top e \<ge> 0 \<and> rect_left e \<ge> 0 \<and>
      rect_bottom e \<le> js_or (innerHeight w) (clientHeight w) \<and>
      rect_right e \<le> js_or (innerWidth w) (clientWidth w))"

text \<open>Lines 68-165 of both indexers. A reference that is no element is not visible.\<close>

definition isElementVisible :: "window \<Rightarrow> document \<Rightarrow> ref \<Rightarrow> error + bool" where
  "isElementVisible w d element =
     (case element_at d element of
        None \<Rightarrow> Inr False
      | Some e \<Rightarrow>
          if isHiddenByAncestors d element then Inr False
          else if pointerEvents e = ''none'' then Inr False
          else if \<not> isSmallFormElement e \<and>
                  (offsetWidth e \<le> 1 \<or> offsetHeight e \<le> 1 \<or>
                   visibility e = ''hidden'' \<or> display e = ''none'')
          then Inr False
          else
            (case (if isSmallFormElement e then smallParentHidden d element else Inr False) of
               Inl err \<Rightarrow> Inl err
             | Inr True \<Rightarrow> Inr False
             | Inr False \<Rightarrow>
                 (let elementAtPoint =
                        elementFromPoint w (rect_left e + rect_width e / 2)
                                           (rect_top e + rect_height e / 2)
                  in if isToggle e \<and> hitsLabelOrContainer d element (element_id e) elementAtPoint
                     then Inr True
                     else if element_at d elementAtPoint = None \<or>
                             (elementAtPoint \<noteq> element \<and>
                              \<not> contains element elementAtPoint \<and>
                              \<not> contains elementAtPoint element)
                     then Inr False
                     else if rect_width e * rect_height e = 0 then Inr False
                     else Inr (inViewport w e))))"

subsection \<open>Siblings and label text\<close>

fun first_element_from :: "nat \<Rightarrow> node list \<Rightarrow> nat option" where
  "first_element_from i [] = None"
| "first_element_from i (Text s # ns) = first_element_from (Suc i) ns"
| "first_element_from i (Elem e cs # ns) = Some i"

fun last_element_from :: "nat \<Rightarrow> node list \<Rightarrow> nat option \<Rightarrow> nat option" where
  "last_element_from i [] found = found"
| "last_element_from i (Text s # ns) found = last_element_from (Suc i) ns found"
| "last_element_from i (Elem e cs # ns) found = last_element_from (Suc i) ns (Some i)"

definition nextElementSibling :: "document \<Rightarrow> ref \<Rightarrow> ref" where
  "nextElementSibling d r =
     (case r of
        [] \<Rightarrow> null_ref
      | i # p \<Rightarrow>
          (case first_element_from (Suc i) (drop (Suc i) (childNodes d p)) of
             Some j \<Rightarrow> j # p
           | None \<Rightarrow> null_ref))"

definition previousElementSibling :: "document \<Rightarrow> ref \<Rightarrow> ref" where
  "previousElementSibling d r =
     (case r of
        [] \<Rightarrow> null_ref
      | i # p \<Rightarrow>
          (case last_element_from 0 (take i (childNodes d p)) None of
             Some j \<Rightarrow> j # p
           | None \<Rightarrow> null_ref))"

text \<open>\<^verbatim>\<open>x.textContent?.replace(/\n/g, " ").trim() || ""\<close>\<close>

definition labelText :: "document \<Rightarrow> ref \<Rightarrow> string" where
  "labelText d r = trim (replace_newlines (textContent d r))"

text \<open>\<^verbatim>\<open>x.textContent?.replace(/\\n/g, " ").trim() || ""\<close> (step 3.5 of the rich indexer)\<close>

definition labelText_escaped :: "document \<Rightarrow> ref \<Rightarrow> string" where
  "labelText_escaped d r = trim (replace_backslash_n (textContent d r))"

definition tagIs :: "document \<Rightarrow> ref \<Rightarrow> string \<Rightarrow> bool" where
  "tagIs d r t = (case element_at d r of Some e \<Rightarrow> tagName e = t | None \<Rightarrow> False)"

text \<open>Step 1 of the fallback: the text of the label associated through \<^verbatim>\<open>for\<close>.\<close>

definition forLabelText :: "document \<Rightarrow> element \<Rightarrow> string \<Rightarrow> error + string" where
  "forLabelText d e innerText0 =
     (if element_id e \<noteq> [] then
        (case query_label_for d (element_id e) of
           Inl err \<Rightarrow> Inl err
         | Inr associatedLabel \<Rightarrow>
             Inr (if associatedLabel \<noteq> null_ref then labelText d associatedLabel else innerText0))
      else Inr innerText0)"

text \<open>Step 2: the text of a parent that is a label.\<close>

definition wrappingLabelText :: "document \<Rightarrow> ref \<Rightarrow> string \<Rightarrow> string" where
  "wrappingLabelText d element innerText0 =
     (if innerText0 = [] \<and> tagIs d (parentElement element) ''label''
      then labelText d (parentElement element) else innerText0)"

text \<open>Step 3: the next sibling element when it is a span, else the previous one when it is.\<close>

definition siblingSpanText :: "document \<Rightarrow> ref \<Rightarrow> string \<Rightarrow> string" where
  "siblingSpanText d element innerText0 =
     (if innerText0 = [] then
        (if tagIs d (nextElementSibling d element) ''span''
         then labelText d (nextElementSibling d element)
         else if tagIs d (previousElementSibling d element) ''span''
         then labelText d (previousElementSibling d element)
         else innerText0)
      else innerText0)"

text \<open>
  Step 4 of the simple indexer:
  \<^verbatim>\<open>element.getAttribute("value") || element.getAttribute("placeholder") || ""\<close>
\<close>

definition valueOrPlaceholder :: "element \<Rightarrow> string \<Rightarrow> string" where
  "valueOrPlaceholder e innerText0 =
     (if innerText0 = [] then
        (case attr e ''value'' of
           Some (c # cs) \<Rightarrow> c # cs
         | _ \<Rightarrow> (case attr e ''placeholder'' of Some v \<Rightarrow> v | None \<Rightarrow> []))
      else innerText0)"

text \<open>Step 3.5 of the rich indexer: the next sibling element, whatever its tag.\<close>

definition nextSiblingText :: "document \<Rightarrow> ref \<Rightarrow> string \<Rightarrow> string" where
  "nextSiblingText d element innerText0 =
     (if innerText0 = [] \<and> nextElementSibling d element \<noteq> null_ref
      then labelText_escaped d (nextElementSibling d element) else innerText0)"

section \<open>The simple indexer (part 001)\<close>

definition candidate_001 :: "element \<Rightarrow> bool" where
  "candidate_001 e =
     (tagName e \<in> set [''a'', ''button'', ''input'', ''textarea'', ''select''] \<or>
      (case attr e ''role'' of
         Some v \<Rightarrow> v \<in> set [''button'', ''combobox'', ''listbox'', ''menuitem'', ''tab'', ''link'']
       | None \<Rightarrow> False))"

text \<open>Lines 172-177: the attributes of the allow-list that are present.\<close>

definition attribute_text_001 :: "element \<Rightarrow> string \<Rightarrow> string" where
  "attribute_text_001 e a =
     (case attr e a of
        Some attrValue \<Rightarrow> '' '' @ a @ ''='' @ [CHR 0x22] @ attrValue @ [CHR 0x22]
      | None \<Rightarrow> [])"

text \<open>Lines 180-230: the inner text, with the fallbacks of an input without text.\<close>

definition innerText_001 :: "document \<Rightarrow> ref \<Rightarrow> element \<Rightarrow> error + string" where
  "innerText_001 d element e =
     (let innerText0 = labelText d element in
      if tagName e = ''input'' \<and> innerText0 = [] then
        (case forLabelText d e innerText0 of
           Inl err \<Rightarrow> Inl err
         | Inr innerText1 \<Rightarrow>
             Inr (valueOrPlaceholder e
                    (siblingSpanText d element (wrappingLabelText d element innerText1))))
      else Inr innerText0)"

text \<open>Lines 170-234.\<close>

definition simplified_html_001 :: "document \<Rightarrow> ref \<Rightarrow> element \<Rightarrow> error + string" where
  "simplified_html_001 d element e =
     (case innerText_001 d element e of
        Inl err \<Rightarrow> Inl err
      | Inr innerText1 \<Rightarrow>
          Inr (trim (collapse_whitespace
                (foldl (\<lambda>html a. html @ attribute_text_001 e a) (''<'' @ tagName e)
                   [''aria-label'', ''alt'', ''placeholder'', ''value'']
                 @ ''>'' @ innerText1 @ ''</'' @ tagName e @ ''>''))))"

section \<open>The rich indexer (part 002)\<close>

definition candidate_002 :: "element \<Rightarrow> bool" where
  "candidate_002 e =
     (tagName e \<in> set [''a'', ''button'', ''input'', ''textarea'', ''select''] \<or>
      (case attr e ''role'' of
         Some v \<Rightarrow> v \<in> set [''button'', ''combobox'', ''option'', ''menuitem'', ''tab'', ''link'']
       | None \<Rightarrow> False))"

definition attrs_002 :: "string list" where
  "attrs_002 =
     [''id'', ''name'', ''role'', ''type'', ''value'', ''placeholder'', ''title'', ''alt'', ''href'',
      ''checked'', ''selected'', ''disabled'', ''readonly'',
      ''aria-label'', ''aria-checked'', ''aria-selected'', ''aria-expanded'', ''aria-pressed'',
      ''aria-disabled'', ''aria-current'', ''aria-haspopup'']"

definition boolean_attrs :: "string list" where
  "boolean_attrs =
     [''checked'', ''selected'', ''disabled'', ''readonly'', ''aria-checked'', ''aria-selected'',
      ''aria-expanded'', ''aria-pressed'', ''aria-disabled'', ''aria-current'']"

text \<open>
  Lines 229-232:
  \<^verbatim>\<open>if (attrValue && attrValue.length > 50) attrValue = attrValue.substring(0, 47) + "..."\<close>
\<close>

definition truncate_value :: "string \<Rightarrow> string" where
  "truncate_value attrValue =
     (if attrValue \<noteq> [] \<and> length attrValue > 50 then take 47 attrValue @ ''...''
      else attrValue)"

text \<open>Lines 229-233: what a value that is written adds to the description.\<close>

definition written_attribute :: "string \<Rightarrow> string \<Rightarrow> string" where
  "written_attribute a attrValue =
     '' '' @ a @ ''='' @ [CHR 0x22] @ truncate_value attrValue @ [CHR 0x22]"

text \<open>Lines 200-235: what one attribute of the allow-list adds to the description.\<close>

definition attribute_text_002 :: "element \<Rightarrow> string \<Rightarrow> string" where
  "attribute_text_002 e a =
     (case attr e a of
        None \<Rightarrow> []
      | Some v \<Rightarrow>
          (let attrValue = (if v = [] \<and> a \<in> set boolean_attrs then ''true'' else v) in
           if attrValue \<noteq> [] \<or> a = ''value'' \<or> a = ''alt'' \<or> a = ''placeholder'' \<or>
              a = ''title'' \<or> a = ''href''
           then written_attribute a attrValue
           else []))"

text \<open>Lines 241-291: the rendered text, with the fallbacks of an input without text.\<close>

definition innerText_002 :: "document \<Rightarrow> ref \<Rightarrow> element \<Rightarrow> error + string" where
  "innerText_002 d element e =
     (let innerText0 = innerText e in
      if tagName e = ''input'' \<and> innerText0 = [] then
        (case forLabelText d e innerText0 of
           Inl err \<Rightarrow> Inl err
         | Inr innerText1 \<Rightarrow>
             Inr (nextSiblingText d element
                    (siblingSpanText d element (wrappingLabelText d element innerText1))))
      else Inr innerText0)"

text \<open>Lines 170-295.\<close>

definition simplified_html_002 :: "document \<Rightarrow> ref \<Rightarrow> element \<Rightarrow> error + string" where
  "simplified_html_002 d element e =
     (case innerText_002 d element e of
        Inl err \<Rightarrow> Inl err
      | Inr innerText1 \<Rightarrow>
          Inr (trim (collapse_whitespace
                (foldl (\<lambda>html a. html @ attribute_text_002 e a) (''<'' @ tagName e) attrs_002
                 @ ''>'' @ innerText1 @ ''</'' @ tagName e @ ''>''))))"

section \<open>The scan\<close>

text \<open>
  The variables of the loop: the document, the JavaScript object
  \<^verbatim>\<open>element_simplified_htmls\<close> as the list of its entries in the order of their keys, and
  \<^verbatim>\<open>visibleIndex\<close>.
\<close>

record scan_state =
  doc :: document
  element_simplified_htmls :: "(nat \<times> string) list"
  visibleIndex :: nat

text \<open>The element that receives \<^verbatim>\<open>data-gwa-id\<close>: lines 236 (simple) and 297-311 (rich).\<close>

definition primaryTarget_001 :: "document \<Rightarrow> ref \<Rightarrow> element \<Rightarrow> error + ref" where
  "primaryTarget_001 d element e = Inr element"

definition primaryTarget_002 :: "document \<Rightarrow> ref \<Rightarrow> element \<Rightarrow> error + ref" where
  "primaryTarget_002 d element e =
     (if tagName e = ''input'' \<and> rect_width e < 5 \<and> rect_height e < 5
      then getParentWithLabel d element else Inr element)"

text \<open>The element that receives \<^verbatim>\<open>data-bbox-gwa-id\<close>: lines 239-251 and 314-326.\<close>

definition bboxTarget :: "document \<Rightarrow> ref \<Rightarrow> element \<Rightarrow> error + ref" where
  "bboxTarget d element e =
     (if tagName e = ''input'' \<or> tagName e = ''textarea'' \<or> tagName e = ''select''
      then getParentWithLabel d element else Inr element)"

text \<open>
  The body of \<^verbatim>\<open>elements.forEach\<close>, lines 168-260 and 168-335. The two indexers differ in
  the description and in the element that receives the primary marker.
\<close>

definition visit ::
  "(document \<Rightarrow> ref \<Rightarrow> element \<Rightarrow> error + string) \<Rightarrow> (document \<Rightarrow> ref \<Rightarrow> element \<Rightarrow> error + ref) \<Rightarrow>
   window \<Rightarrow> scan_state \<Rightarrow> ref \<Rightarrow> error + scan_state" where
  "visit simplified_html primaryTarget w st element =
     (case isElementVisible w (doc st) element of
        Inl err \<Rightarrow> Inl err
      | Inr False \<Rightarrow> Inr st
      | Inr True \<Rightarrow>
          (case element_at (doc st) element of
             None \<Rightarrow> Inr st
           | Some e \<Rightarrow>
               (case simplified_html (doc st) element e of
                  Inl err \<Rightarrow> Inl err
                | Inr html \<Rightarrow>
                    (case primaryTarget (doc st) element e of
                       Inl err \<Rightarrow> Inl err
                     | Inr target \<Rightarrow>
                         (let d1 = setAttribute (doc st) target ''data-gwa-id''
                                     (marker (visibleIndex st))
                          in case bboxTarget d1 element e of
                               Inl err \<Rightarrow> Inl err
                             | Inr bboxElement \<Rightarrow>
                                 Inr \<lparr>doc = setAttribute d1 bboxElement ''data-bbox-gwa-id''
                                              (marker (visibleIndex st)),
                                      element_simplified_htmls =
                                        AList.update (visibleIndex st) html
                                          (element_simplified_htmls st),
                                      visibleIndex = Suc (visibleIndex st)\<rparr>)))))"

fun forEach :: "('s \<Rightarrow> 'a \<Rightarrow> error + 's) \<Rightarrow> 's \<Rightarrow> 'a list \<Rightarrow> error + 's" where
  "forEach f s [] = Inr s"
| "forEach f s (x # xs) = (case f s x of Inl err \<Rightarrow> Inl err | Inr s' \<Rightarrow> forEach f s' xs)"

text \<open>Lines 2-8: the reset.\<close>

definition reset :: "document \<Rightarrow> document" where
  "reset d = removeAttributeAll ''data-bbox-gwa-id'' (removeAttributeAll ''data-gwa-id'' d)"

definition scan ::
  "(element \<Rightarrow> bool) \<Rightarrow> (document \<Rightarrow> ref \<Rightarrow> element \<Rightarrow> error + string) \<Rightarrow>
   (document \<Rightarrow> ref \<Rightarrow> element \<Rightarrow> error + ref) \<Rightarrow>
   window \<Rightarrow> document \<Rightarrow> error + document \<times> (nat \<times> string) list" where
  "scan candidate simplified_html primaryTarget w d =
     (let elements = querySelectorAll (reset d) candidate in
      case forEach (visit simplified_html primaryTarget w)
             \<lparr>doc = reset d, element_simplified_htmls = [], visibleIndex = 0\<rparr> elements of
        Inl err \<Rightarrow> Inl err
      | Inr st \<Rightarrow> Inr (doc st, element_simplified_htmls st))"

text \<open>
  The two scripts: each answers the document it leaves behind together with the map
  from handle to description, or the error it throws. (The script that throws leaves
  the markers it has written so far; that document is not part of the answer.)
\<close>

definition scan_001 :: "window \<Rightarrow> document \<Rightarrow> error + document \<times> (nat \<times> string) list" where
  "scan_001 = scan candidate_001 simplified_html_001 primaryTarget_001"

definition scan_002 :: "window \<Rightarrow> document \<Rightarrow> error + document \<times> (nat \<times> string) list" where
  "scan_002 = scan candidate_002 simplified_html_002 primaryTarget_002"

section \<open>The annotation renderer\<close>

subsection \<open>Numbers and their strings\<close>

text \<open>
  A handle passed to or computed by the renderer is a JavaScript number: an integer or
  \<^verbatim>\<open>NaN\<close>. (Fractions, infinities and the exponent notation of integers from
  \<open>10^21\<close> on are outside the model.)
\<close>

datatype js_number = Num int | NaN

fun js_toString :: "js_number \<Rightarrow> string" where
  "js_toString NaN = ''NaN''"
| "js_toString (Num i) = (if 0 \<le> i then decimal (nat i) else CHR ''-'' # decimal (nat (- i)))"

text \<open>\<^verbatim>\<open>s.replace(pat, rep)\<close> with a string pattern: the first occurrence only.\<close>

fun replace_first :: "string \<Rightarrow> string \<Rightarrow> string \<Rightarrow> string" where
  "replace_first pat rep [] = (if pat = [] then rep else [])"
| "replace_first pat rep (c # cs) =
     (if take (length pat) (c # cs) = pat then rep @ drop (length pat) (c # cs)
      else c # replace_first pat rep cs)"

text \<open>
  \<^verbatim>\<open>parseInt(s)\<close> without a radix: leading white space and a sign are skipped, the
  prefix \<^verbatim>\<open>0x\<close> selects base 16, the longest run of digits is read, and the result is
  \<^verbatim>\<open>NaN\<close> when there is no digit.
\<close>

definition dec_digit :: "char \<Rightarrow> nat option" where
  "dec_digit c = map_of (zip ''0123456789'' [0, 1, 2, 3, 4, 5, 6, 7, 8, 9]) c"

definition hex_digit :: "char \<Rightarrow> nat option" where
  "hex_digit c =
     map_of (zip ''0123456789abcdefABCDEF''
                 [0, 1, 2, 3, 4, 5, 6, 7, 8, 9, 10, 11, 12, 13, 14, 15, 10, 11, 12, 13, 14, 15]) c"

fun read_digits :: "(char \<Rightarrow> nat option) \<Rightarrow> string \<Rightarrow> nat list" where
  "read_digits f [] = []"
| "read_digits f (c # cs) = (case f c of None \<Rightarrow> [] | Some v \<Rightarrow> v # read_digits f cs)"

definition digits_value :: "nat \<Rightarrow> nat list \<Rightarrow> js_number" where
  "digits_value radix ds =
     (if ds = [] then NaN else Num (int (foldl (\<lambda>a v. a * radix + v) 0 ds)))"

fun negate :: "js_number \<Rightarrow> js_number" where
  "negate (Num i) = Num (- i)"
| "negate NaN = NaN"

fun parse_unsigned :: "string \<Rightarrow> js_number" where
  "parse_unsigned (a # b # cs) =
     (if a = CHR ''0'' \<and> (b = CHR ''x'' \<or> b = CHR ''X'') then digits_value 16 (read_digits hex_digit cs)
      else digits_value 10 (read_digits dec_digit (a # b # cs)))"
| "parse_unsigned cs = digits_value 10 (read_digits dec_digit cs)"

fun parse_signed :: "string \<Rightarrow> js_number" where
  "parse_signed (c # cs) =
     (if c = CHR ''-'' then negate (parse_unsigned cs)
      else if c = CHR ''+'' then parse_unsigned cs
      else parse_unsigned (c # cs))"
| "parse_signed [] = NaN"

definition parseInt :: "string \<Rightarrow> js_number" where
  "parseInt s = parse_signed (dropWhile is_space s)"

text \<open>
  Lines 6-7: \<^verbatim>\<open>parseInt(id?.replace("gwa-element-", "") || "0")\<close>, where \<open>id\<close> is the
  value of the attribute read, or \<^verbatim>\<open>null\<close>.
\<close>

definition handle_of_attribute :: "string option \<Rightarrow> js_number" where
  "handle_of_attribute ident =
     (case ident of
        None \<Rightarrow> parseInt ''0''
      | Some s \<Rightarrow>
          (if replace_first ''gwa-element-'' [] s = [] then parseInt ''0''
           else parseInt (replace_first ''gwa-element-'' [] s)))"

subsection \<open>Classes, removal and insertion\<close>

text \<open>
  The class selector \<^verbatim>\<open>.c\<close> matches an element whose \<^verbatim>\<open>class\<close> attribute has \<open>c\<close> among
  its tokens, the tokens being separated by TAB, LF, FF, CR or SPACE.
\<close>

definition class_space :: "char \<Rightarrow> bool" where
  "class_space c = (c \<in> set [CHR 0x09, CHR 0x0A, CHR 0x0C, CHR 0x0D, CHR 0x20])"

fun tokens_from :: "string \<Rightarrow> string \<Rightarrow> string list" where
  "tokens_from acc [] = (if acc = [] then [] else [acc])"
| "tokens_from acc (c # cs) =
     (if class_space c then (if acc = [] then tokens_from [] cs else acc # tokens_from [] cs)
      else tokens_from (acc @ [c]) cs)"

definition has_class :: "string \<Rightarrow> element \<Rightarrow> bool" where
  "has_class c e = (case attr e ''class'' of Some v \<Rightarrow> c \<in> set (tokens_from [] v) | None \<Rightarrow> False)"

text \<open>
  Lines 13-18: every element of the document with the class is removed from its parent.
  An element goes together with its subtree, so the matching elements below it leave the
  document with it: what remains is the document without the subtrees rooted at a
  matching element.
\<close>

fun remove_matching :: "(element \<Rightarrow> bool) \<Rightarrow> node list \<Rightarrow> node list" where
  "remove_matching P [] = []"
| "remove_matching P (Text s # rest) = Text s # remove_matching P rest"
| "remove_matching P (Elem e cs # rest) =
     (if P e then remove_matching P rest
      else Elem e (remove_matching P cs) # remove_matching P rest)"

definition removeElementsByClass :: "string \<Rightarrow> document \<Rightarrow> document" where
  "removeElementsByClass c d = remove_matching (has_class c) d"

text \<open>Lines 19-20.\<close>

definition clear_annotations :: "document \<Rightarrow> document" where
  "clear_annotations d = removeElementsByClass ''GWA-label'' (removeElementsByClass ''GWA-rect'' d)"

text \<open>
  \<^verbatim>\<open>document.documentElement\<close> is the first element child of the document;
  \<^verbatim>\<open>document.body\<close> is the first \<^verbatim>\<open>body\<close> or \<^verbatim>\<open>frameset\<close> child of the document
  element when that is an \<^verbatim>\<open>html\<close> element, and \<^verbatim>\<open>null\<close> otherwise.
\<close>

fun first_child_with :: "(element \<Rightarrow> bool) \<Rightarrow> nat \<Rightarrow> node list \<Rightarrow> nat option" where
  "first_child_with P i [] = None"
| "first_child_with P i (Text s # ns) = first_child_with P (Suc i) ns"
| "first_child_with P i (Elem e cs # ns) =
     (if P e then Some i else first_child_with P (Suc i) ns)"

definition documentElement :: "document \<Rightarrow> ref" where
  "documentElement d = (case first_child_with (\<lambda>e. True) 0 d of Some i \<Rightarrow> [i] | None \<Rightarrow> null_ref)"

definition body :: "document \<Rightarrow> ref" where
  "body d =
     (if tagIs d (documentElement d) ''html'' then
        (case first_child_with (\<lambda>e. tagName e = ''body'' \<or> tagName e = ''frameset'') 0
                (childNodes d (documentElement d)) of
           Some j \<Rightarrow> j # documentElement d
         | None \<Rightarrow> null_ref)
      else null_ref)"

text \<open>\<^verbatim>\<open>parent.appendChild(n)\<close> for a node \<open>n\<close> that is not yet in the document.\<close>

fun append_path :: "node list \<Rightarrow> nat list \<Rightarrow> node list \<Rightarrow> node list" where
  "append_path new [] ns = ns"
| "append_path new (i # p) ns =
     (if i < length ns then
        (case ns ! i of
           Elem e cs \<Rightarrow> ns[i := Elem e (if p = [] then cs @ new else append_path new p cs)]
         | Text s \<Rightarrow> ns)
      else ns)"

definition appendChild :: "document \<Rightarrow> ref \<Rightarrow> node \<Rightarrow> document" where
  "appendChild d parent n = append_path [n] (rev parent) d"

subsection \<open>The overlay nodes\<close>

text \<open>
  A node made by \<^verbatim>\<open>document.createElement\<close>, with the class and the style properties the
  script assigns. The layout of such a node is computed after the script has returned
  and no script reads it: its layout fields are left at zero. Nor does a script read the
  \<^verbatim>\<open>style\<close> attribute that mirrors the style properties: it is not listed among the
  attributes.
\<close>

definition created ::
  "string \<Rightarrow> string \<Rightarrow> (string \<times> css_value) list \<Rightarrow> element" where
  "created t c st =
     \<lparr>tagName = t, attributes = [(''class'', c)], display = [], visibility = [],
      pointerEvents = [], offsetWidth = 0, offsetHeight = 0, rect_top = 0, rect_left = 0,
      rect_width = 0, rect_height = 0, innerText = [], style = st\<rparr>"

text \<open>Part 000, lines 29-45 and 48-69.\<close>

definition rect_node_000 :: "window \<Rightarrow> element \<Rightarrow> js_number \<Rightarrow> node" where
  "rect_node_000 w target index =
     Elem (created ''div'' ''GWA-rect''
             [(''border'', Keyword ''2px solid brown''), (''position'', Keyword ''absolute''),
              (''top'', Px (rect_top target + scrollY w)),
              (''left'', Px (rect_left target + scrollX w)),
              (''width'', Px (rect_width target)), (''height'', Px (rect_height target)),
              (''z-index'', Keyword ''2147483647''), (''pointer-events'', Keyword ''none''),
              (''background-color'', Keyword ''rgba(165, 42, 42, 0.1)'')]) []"

definition label_node_000 :: "window \<Rightarrow> element \<Rightarrow> js_number \<Rightarrow> node" where
  "label_node_000 w target index =
     Elem (created ''span'' ''GWA-label''
             [(''position'', Keyword ''absolute''), (''line-height'', Keyword ''16px''),
              (''padding'', Keyword ''1px''), (''color'', Keyword ''white''),
              (''font-weight'', Keyword ''bold''), (''font-size'', Keyword ''14px''),
              (''background-color'', Keyword ''brown''), (''z-index'', Keyword ''2147483647''),
              (''top'', Px (if rect_height target < 24 \<or> rect_width target < 24
                            then rect_top target + scrollY w - 16
                            else rect_top target + scrollY w)),
              (''left'', Px (rect_left target + scrollX w))])
          [Text (js_toString index)]"

text \<open>\<^verbatim>\<open>draw_bounding_boxes.js\<close>, lines 29-44 and 47-60.\<close>

definition rect_node_js :: "window \<Rightarrow> element \<Rightarrow> js_number \<Rightarrow> node" where
  "rect_node_js w target index =
     Elem (created ''div'' ''GWA-rect''
             [(''border'', Keyword ''2px solid brown''), (''position'', Keyword ''absolute''),
              (''top'', Px (rect_top target + scrollY w)),
              (''left'', Px (rect_left target + scrollX w)),
              (''width'', Px (rect_width target)), (''height'', Px (rect_height target)),
              (''z-index'', Keyword ''10000''), (''pointer-events'', Keyword ''none'')]) []"

definition label_node_js :: "window \<Rightarrow> element \<Rightarrow> js_number \<Rightarrow> node" where
  "label_node_js w target index =
     Elem (created ''span'' ''GWA-label''
             [(''position'', Keyword ''absolute''), (''line-height'', Keyword ''16px''),
              (''padding'', Keyword ''1px''),
              (''top'', Px (rect_top target + scrollY w)),
              (''left'', Px (rect_left target + scrollX w)),
              (''color'', Keyword ''white''), (''font-weight'', Keyword ''bold''),
              (''font-size'', Keyword ''16px''), (''background-color'', Keyword ''brown''),
              (''z-index'', Keyword ''10000'')])
          [Text (js_toString index)]"

subsection \<open>Drawing\<close>

text \<open>
  The two renderers differ in the attribute they read and look up (\<open>marker_attr\<close>:
  \<^verbatim>\<open>data-bbox-gwa-id\<close> in part 000, \<^verbatim>\<open>data-gwa-id\<close> in \<^verbatim>\<open>draw_bounding_boxes.js\<close>) and in
  the style of the nodes they create. Both select the elements that carry
  \<^verbatim>\<open>data-gwa-id\<close> when no indices are given.
\<close>

text \<open>Lines 4-9: the indices when none are given.\<close>

definition default_indices :: "string \<Rightarrow> document \<Rightarrow> js_number list" where
  "default_indices marker_attr d =
     map (\<lambda>el. handle_of_attribute (getAttribute d el marker_attr))
       (querySelectorAll d (\<lambda>e. attr e ''data-gwa-id'' \<noteq> None))"

text \<open>Lines 24-26: the element a handle resolves to, \<open>null_ref\<close> when there is none.\<close>

definition resolve :: "string \<Rightarrow> document \<Rightarrow> js_number \<Rightarrow> ref" where
  "resolve marker_attr d index =
     querySelector d (\<lambda>e. attr e marker_attr = Some (''gwa-element-'' @ js_toString index))"

text \<open>
  Lines 23-70, the body of \<^verbatim>\<open>indices.forEach\<close>. \<^verbatim>\<open>document.body.appendChild\<close> throws a
  \<open>TypeError\<close> when the document has no body.
\<close>

definition draw_index ::
  "string \<Rightarrow> (window \<Rightarrow> element \<Rightarrow> js_number \<Rightarrow> node) \<Rightarrow> (window \<Rightarrow> element \<Rightarrow> js_number \<Rightarrow> node) \<Rightarrow>
   window \<Rightarrow> document \<Rightarrow> js_number \<Rightarrow> error + document" where
  "draw_index marker_attr rect_node label_node w d index =
     (case element_at d (resolve marker_attr d index) of
        None \<Rightarrow> Inr d
      | Some target \<Rightarrow>
          if body d = null_ref then Inl TypeError
          else (let d1 = appendChild d (body d) (rect_node w target index)
                in if body d1 = null_ref then Inl TypeError
                   else Inr (appendChild d1 (body d1) (label_node w target index))))"

text \<open>The script: the document it leaves and the number it returns, or the error.\<close>

definition draw ::
  "string \<Rightarrow> (window \<Rightarrow> element \<Rightarrow> js_number \<Rightarrow> node) \<Rightarrow> (window \<Rightarrow> element \<Rightarrow> js_number \<Rightarrow> node) \<Rightarrow>
   window \<Rightarrow> document \<Rightarrow> js_number list option \<Rightarrow> error + document \<times> nat" where
  "draw marker_attr rect_node label_node w d indices =
     (let indices1 = (case indices of
                        None \<Rightarrow> default_indices marker_attr d
                      | Some [] \<Rightarrow> default_indices marker_attr d
                      | Some (i # is) \<Rightarrow> i # is)
      in case forEach (draw_index marker_attr rect_node label_node w) (clear_annotations d) indices1 of
           Inl err \<Rightarrow> Inl err
         | Inr d' \<Rightarrow> Inr (d', length indices1))"

definition draw_000 :: "window \<Rightarrow> document \<Rightarrow> js_number list option \<Rightarrow> error + document \<times> nat" where
  "draw_000 = draw ''data-bbox-gwa-id'' rect_node_000 label_node_000"

definition draw_js :: "window \<Rightarrow> document \<Rightarrow> js_number list option \<Rightarrow> error + document \<times> nat" where
  "draw_js = draw ''data-gwa-id'' rect_node_js label_node_js"

section \<open>Auxiliary notions\<close>

text \<open>
  An element and a node without the attribute \<open>k\<close>, and an element without the two marker
  attributes: what \<open>removeAttributeAll\<close> and \<open>reset\<close> leave of them.
\<close>

definition strip_element :: "string \<Rightarrow> element \<Rightarrow> element" where
  "strip_element k e = e\<lparr>attributes := AList.delete k (attributes e)\<rparr>"

fun strip_node :: "string \<Rightarrow> node \<Rightarrow> node" where
  "strip_node k (Text s) = Text s"
| "strip_node k (Elem e cs) = Elem (strip_element k e) (removeAttributeAll k cs)"

definition unmark :: "element \<Rightarrow> element" where
  "unmark e = strip_element ''data-bbox-gwa-id'' (strip_element ''data-gwa-id'' e)"

text \<open>
  The description the indexer computes for the element \<open>x\<close> of the document \<open>d\<close>, and the
  elements of a list that pass the visibility filter, in the order of the list.
\<close>

definition describe ::
  "(document \<Rightarrow> ref \<Rightarrow> element \<Rightarrow> error + string) \<Rightarrow> document \<Rightarrow> ref \<Rightarrow> error + string" where
  "describe simplified_html d x =
     (case element_at d x of Some e \<Rightarrow> simplified_html d x e | None \<Rightarrow> Inl TypeError)"

definition visibleElements :: "window \<Rightarrow> document \<Rightarrow> ref list \<Rightarrow> ref list" where
  "visibleElements w d xs = filter (\<lambda>x. isElementVisible w d x = Inr True) xs"

text \<open>The first non-empty string of a list, the empty string when there is none.\<close>

fun first_nonempty :: "string list \<Rightarrow> string" where
  "first_nonempty [] = []"
| "first_nonempty (s # ss) = (if s \<noteq> [] then s else first_nonempty ss)"

text \<open>
  The texts the fallback of an input without text can draw on, each the empty string when
  its source is absent: the label associated through \<^verbatim>\<open>for\<close>, a parent that is a label,
  the next and the previous sibling when it is a span, the next and the previous sibling
  whatever its tag, and an attribute.
\<close>

definition text_of_for_label :: "document \<Rightarrow> element \<Rightarrow> error + string" where
  "text_of_for_label d e =
     (if element_id e = [] then Inr []
      else (case query_label_for d (element_id e) of
              Inl err \<Rightarrow> Inl err
            | Inr l \<Rightarrow> Inr (if l = null_ref then [] else labelText d l)))"

definition text_of_wrapping_label :: "document \<Rightarrow> ref \<Rightarrow> string" where
  "text_of_wrapping_label d x =
     (if tagIs d (parentElement x) ''label'' then labelText d (parentElement x) else [])"

definition text_of_next_span :: "document \<Rightarrow> ref \<Rightarrow> string" where
  "text_of_next_span d x =
     (if tagIs d (nextElementSibling d x) ''span'' then labelText d (nextElementSibling d x) else [])"

definition text_of_previous_span :: "document \<Rightarrow> ref \<Rightarrow> string" where
  "text_of_previous_span d x =
     (if tagIs d (previousElementSibling d x) ''span''
      then labelText d (previousElementSibling d x) else [])"

definition text_of_next_sibling :: "document \<Rightarrow> ref \<Rightarrow> string" where
  "text_of_next_sibling d x =
     (if nextElementSibling d x \<noteq> null_ref then labelText d (nextElementSibling d x) else [])"

definition text_of_previous_sibling :: "document \<Rightarrow> ref \<Rightarrow> string" where
  "text_of_previous_sibling d x =
     (if previousElementSibling d x \<noteq> null_ref then labelText d (previousElementSibling d x)
      else [])"

definition text_of_attribute :: "element \<Rightarrow> string \<Rightarrow> string" where
  "text_of_attribute e a = (case attr e a of Some v \<Rightarrow> v | None \<Rightarrow> [])"

text \<open>
  The fallback chain in the words of the specification: (i) the label associated through
  \<^verbatim>\<open>for\<close>, (ii) a wrapping label, (iii) an adjacent sibling span, next then previous,
  (iv) any adjacent sibling element, (v) the value or the placeholder.
\<close>

definition fallback_chain_spec :: "document \<Rightarrow> ref \<Rightarrow> element \<Rightarrow> error + string" where
  "fallback_chain_spec d x e =
     (case text_of_for_label d e of
        Inl err \<Rightarrow> Inl err
      | Inr for_label \<Rightarrow>
          Inr (first_nonempty
                 [for_label, text_of_wrapping_label d x,
                  text_of_next_span d x, text_of_previous_span d x,
                  text_of_next_sibling d x, text_of_previous_sibling d x,
                  text_of_attribute e ''value'', text_of_attribute e ''placeholder'']))"

text \<open>
  Step 3 as the code has it: the previous sibling is read only when the next sibling is
  no span. Step 3.5 of the rich indexer: the text of the next sibling, read with the
  pattern of that step.
\<close>

definition text_of_sibling_span :: "document \<Rightarrow> ref \<Rightarrow> string" where
  "text_of_sibling_span d x =
     (if tagIs d (nextElementSibling d x) ''span'' then labelText d (nextElementSibling d x)
      else text_of_previous_span d x)"

definition text_of_next_sibling_escaped :: "document \<Rightarrow> ref \<Rightarrow> string" where
  "text_of_next_sibling_escaped d x =
     (if nextElementSibling d x \<noteq> null_ref then labelText_escaped d (nextElementSibling d x)
      else [])"

text \<open>
  \<open>free_of P ns\<close>: no element among the nodes \<open>ns\<close> and their descendants satisfies \<open>P\<close>.
  \<open>texts_where P ns\<close>: the text contents of the elements among \<open>ns\<close> and their
  descendants that satisfy \<open>P\<close>, in document order.
\<close>

fun free_of :: "(element \<Rightarrow> bool) \<Rightarrow> node list \<Rightarrow> bool" where
  "free_of P [] = True"
| "free_of P (Text s # ns) = free_of P ns"
| "free_of P (Elem e cs # ns) = (\<not> P e \<and> free_of P cs \<and> free_of P ns)"

fun texts_where :: "(element \<Rightarrow> bool) \<Rightarrow> node list \<Rightarrow> string list" where
  "texts_where P [] = []"
| "texts_where P (Text s # ns) = texts_where P ns"
| "texts_where P (Elem e cs # ns) =
     (if P e then [text_of_list cs] else []) @ texts_where P cs @ texts_where P ns"

text \<open>\<open>element_path ns p\<close>: the path \<open>p\<close>, outermost index first, leads to an element.\<close>

definition element_path :: "node list \<Rightarrow> nat list \<Rightarrow> bool" where
  "element_path ns p = (case node_at_path ns p of Some (Elem e cs) \<Rightarrow> True | _ \<Rightarrow> False)"

text \<open>\<^verbatim>\<open>parent.appendChild(n)\<close> for each node \<open>n\<close> of a list in turn.\<close>

definition appendChildren :: "document \<Rightarrow> ref \<Rightarrow> node list \<Rightarrow> document" where
  "appendChildren d parent ns = append_path ns (rev parent) d"

text \<open>
  The nodes one handle adds to the body, from the document \<open>d\<close> as it is after the clear
  phase: none when the handle resolves to no element, a rectangle and a label otherwise.
  \<open>drawn\<close> are the handles of a list that resolve to an element.
\<close>

definition overlay_nodes ::
  "string \<Rightarrow> (window \<Rightarrow> element \<Rightarrow> js_number \<Rightarrow> node) \<Rightarrow> (window \<Rightarrow> element \<Rightarrow> js_number \<Rightarrow> node) \<Rightarrow>
   window \<Rightarrow> document \<Rightarrow> js_number \<Rightarrow> node list" where
  "overlay_nodes marker_attr rect_node label_node w d index =
     (case element_at d (resolve marker_attr d index) of
        None \<Rightarrow> []
      | Some target \<Rightarrow> [rect_node w target index, label_node w target index])"

definition drawn :: "string \<Rightarrow> document \<Rightarrow> js_number list \<Rightarrow> js_number list" where
  "drawn marker_attr d indices =
     filter (\<lambda>index. element_at d (resolve marker_attr d index) \<noteq> None) indices"

text \<open>
  What the proofs use of the two node makers: the nodes carry no marker attribute, the
  clear phase removes them, the label shows the handle and the rectangle has no text.
\<close>

definition well_made ::
  "string \<Rightarrow> (window \<Rightarrow> element \<Rightarrow> js_number \<Rightarrow> node) \<Rightarrow> (window \<Rightarrow> element \<Rightarrow> js_number \<Rightarrow> node) \<Rightarrow> bool" where
  "well_made marker_attr rect_node label_node =
     (\<forall>w t i.
        (\<forall>v. free_of (\<lambda>e. attr e marker_attr = Some v) [rect_node w t i, label_node w t i]) \<and>
        remove_matching (has_class ''GWA-label'')
          (remove_matching (has_class ''GWA-rect'') [rect_node w t i, label_node w t i]) = [] \<and>
        texts_where (has_class ''GWA-label'') [rect_node w t i, label_node w t i] = [js_toString i] \<and>
        texts_where (has_class ''GWA-rect'') [rect_node w t i, label_node w t i] = [[]])"

text \<open>
  The number of attributes named \<open>k\<close> an element carries, and an element that carries a
  marker attribute more than once.
\<close>

definition marker_count :: "string \<Rightarrow> element \<Rightarrow> nat" where
  "marker_count k e = length (filter (\<lambda>kv. fst kv = k) (attributes e))"

definition twice_marked :: "element \<Rightarrow> bool" where
  "twice_marked e = (marker_count ''data-gwa-id'' e > 1 \<or> marker_count ''data-bbox-gwa-id'' e > 1)"

text \<open>
  \<open>shown_attribute a v\<close> is the text \<^verbatim>\<open> a="v"\<close>, a space before the name. \<open>spaceless v\<close>:
  no character of \<open>v\<close> is white space.
\<close>

definition shown_attribute :: "string \<Rightarrow> string \<Rightarrow> string" where
  "shown_attribute a v = '' '' @ a @ ''='' @ [CHR 0x22] @ v @ [CHR 0x22]"

definition spaceless :: "string \<Rightarrow> bool" where
  "spaceless v = list_all (\<lambda>c. \<not> is_space c) v"

section \<open>Example pages\<close>

text \<open>An element laid out as a visible box at \<open>(x, y)\<close> of \<open>w\<close> by \<open>h\<close> pixels.\<close>

definition visible_box ::
  "string \<Rightarrow> (string \<times> string) list \<Rightarrow> rat \<Rightarrow> rat \<Rightarrow> int \<Rightarrow> int \<Rightarrow> element" where
  "visible_box t as y x w h =
     \<lparr>tagName = t, attributes = as, display = ''block'', visibility = ''visible'',
      pointerEvents = ''auto'', offsetWidth = w, offsetHeight = h, rect_top = y,
      rect_left = x, rect_width = of_int w, rect_height = of_int h, innerText = [],
      style = []\<rparr>"

definition viewport :: "(rat \<Rightarrow> rat \<Rightarrow> ref) \<Rightarrow> window" where
  "viewport hit =
     \<lparr>innerHeight = 600, innerWidth = 800, clientHeight = 600, clientWidth = 800,
      scrollX = 0, scrollY = 0, elementFromPoint = hit\<rparr>"

text \<open>
  \<^verbatim>\<open><html><body><button>Submit</button><input style="display:none"><a>Home</a></body></html>\<close>
\<close>

definition page_submit :: document where
  "page_submit =
     [Elem (visible_box ''html'' [] 0 0 800 600)
        [Elem (visible_box ''body'' [] 0 0 800 600)
           [Elem ((visible_box ''button'' [] 10 10 80 30)\<lparr>innerText := ''Submit''\<rparr>)
              [Text ''Submit''],
            Elem ((visible_box ''input'' [] 50 10 80 30)\<lparr>display := ''none''\<rparr>) [],
            Elem ((visible_box ''a'' [] 100 10 60 20)\<lparr>innerText := ''Home''\<rparr>)
              [Text ''Home'']]]]"

definition window_submit :: window where
  "window_submit =
     viewport (\<lambda>x y. if x = 50 \<and> y = 25 then [0, 0, 0]
                     else if x = 40 \<and> y = 110 then [2, 0, 0] else [0, 0])"

text \<open>
  \<open>proper_ancestor a b\<close>: the element \<open>a\<close> is an ancestor of \<open>b\<close> other than \<open>b\<close>.
  \<open>encloses outer inner\<close>: the rectangle of \<open>outer\<close> covers the rectangle of \<open>inner\<close>.
\<close>

definition proper_ancestor :: "ref \<Rightarrow> ref \<Rightarrow> bool" where
  "proper_ancestor a b = (contains a b \<and> a \<noteq> b)"

definition encloses :: "element \<Rightarrow> element \<Rightarrow> bool" where
  "encloses outer inner =
     (rect_left outer \<le> rect_left inner \<and> rect_top outer \<le> rect_top inner \<and>
      rect_right inner \<le> rect_right outer \<and> rect_bottom inner \<le> rect_bottom outer)"

text \<open>
  \<^verbatim>\<open><label>Accept<input type="checkbox"></label>\<close> with a checkbox of 0 by 0 pixels and
  a label of \<open>lw\<close> by \<open>lh\<close> pixels; the hit test at the checkbox lands on the label.
\<close>

definition page_toggle :: "int \<Rightarrow> int \<Rightarrow> document" where
  "page_toggle lw lh =
     [Elem (visible_box ''html'' [] 0 0 800 600)
        [Elem (visible_box ''body'' [] 0 0 800 600)
           [Elem (visible_box ''label'' [] 10 10 lw lh)
              [Text ''Accept'',
               Elem (visible_box ''input'' [(''type'', ''checkbox'')] 20 15 0 0) []]]]]"

definition window_toggle :: window where
  "window_toggle = viewport (\<lambda>x y. if x = 15 \<and> y = 20 then [0, 0, 0] else [0, 0])"

text \<open>
  \<^verbatim>\<open><div><input type="checkbox"></div>\<close> with a checkbox of 0 by 0 pixels and no label;
  the hit test at the checkbox lands on the div (\<open>window_toggle\<close>).
\<close>

definition page_bare_toggle :: document where
  "page_bare_toggle =
     [Elem (visible_box ''html'' [] 0 0 800 600)
        [Elem (visible_box ''body'' [] 0 0 800 600)
           [Elem (visible_box ''div'' [] 10 10 100 20)
              [Elem (visible_box ''input'' [(''type'', ''checkbox'')] 20 15 0 0) []]]]]"

text \<open>
  \<^verbatim>\<open><label>Name<input type="text"></label>\<close> where the input is positioned away from
  the box of its label.
\<close>

definition page_far_label :: document where
  "page_far_label =
     [Elem (visible_box ''html'' [] 0 0 800 600)
        [Elem (visible_box ''body'' [] 0 0 800 600)
           [Elem (visible_box ''label'' [] 10 10 50 20)
              [Text ''Name'',
               Elem (visible_box ''input'' [(''type'', ''text'')] 100 100 80 30) []]]]]"

text \<open>
  \<^verbatim>\<open><input type="checkbox">\<close> of 20 by 20 pixels whose left edge is 5 pixels outside
  the viewport; the hit test at its centre (5, 20) lands on the checkbox.
\<close>

definition page_cut_toggle :: document where
  "page_cut_toggle =
     [Elem (visible_box ''html'' [] 0 0 800 600)
        [Elem (visible_box ''body'' [] 0 0 800 600)
           [Elem (visible_box ''input'' [(''type'', ''checkbox'')] 10 (-5) 20 20) []]]]"

definition window_cut_toggle :: window where
  "window_cut_toggle = viewport (\<lambda>x y. if x = 5 \<and> y = 20 then [0, 0, 0] else [])"

text \<open>The marked button and link of \<open>page_submit_marked\<close>.\<close>

definition submit_button :: element where
  "submit_button =
     (visible_box ''button''
        [(''data-gwa-id'', ''gwa-element-0''), (''data-bbox-gwa-id'', ''gwa-element-0'')]
        10 10 80 30)\<lparr>innerText := ''Submit''\<rparr>"

definition home_link :: element where
  "home_link =
     (visible_box ''a''
        [(''data-gwa-id'', ''gwa-element-1''), (''data-bbox-gwa-id'', ''gwa-element-1'')]
        100 10 60 20)\<lparr>innerText := ''Home''\<rparr>"

text \<open>\<^verbatim>\<open><div><input type="text"><span>Name</span></div>\<close>\<close>

definition page_span :: document where
  "page_span =
     [Elem (visible_box ''html'' [] 0 0 800 600)
        [Elem (visible_box ''body'' [] 0 0 800 600)
           [Elem (visible_box ''div'' [] 10 10 300 30)
              [Elem (visible_box ''input'' [(''type'', ''text'')] 10 10 100 30) [],
               Elem ((visible_box ''span'' [] 10 120 60 30)\<lparr>innerText := ''Name''\<rparr>)
                 [Text ''Name'']]]]]"

text \<open>\<^verbatim>\<open><div><span>Name</span><input type="text"></div>\<close>\<close>

definition page_span_before :: document where
  "page_span_before =
     [Elem (visible_box ''html'' [] 0 0 800 600)
        [Elem (visible_box ''body'' [] 0 0 800 600)
           [Elem (visible_box ''div'' [] 10 10 300 30)
              [Elem ((visible_box ''span'' [] 10 10 60 30)\<lparr>innerText := ''Name''\<rparr>)
                 [Text ''Name''],
               Elem (visible_box ''input'' [(''type'', ''text'')] 10 80 100 30) []]]]]"

text \<open>\<^verbatim>\<open><div><input placeholder="Email"></div>\<close>\<close>

definition page_placeholder :: document where
  "page_placeholder =
     [Elem (visible_box ''html'' [] 0 0 800 600)
        [Elem (visible_box ''body'' [] 0 0 800 600)
           [Elem (visible_box ''div'' [] 10 10 300 30)
              [Elem (visible_box ''input'' [(''placeholder'', ''Email'')] 10 10 100 30) []]]]]"

text \<open>\<^verbatim>\<open><div><input><div>Hint</div></div>\<close>\<close>

definition page_hint :: document where
  "page_hint =
     [Elem (visible_box ''html'' [] 0 0 800 600)
        [Elem (visible_box ''body'' [] 0 0 800 600)
           [Elem (visible_box ''div'' [] 10 10 300 30)
              [Elem (visible_box ''input'' [] 10 10 100 30) [],
               Elem ((visible_box ''div'' [] 10 120 60 30)\<lparr>innerText := ''Hint''\<rparr>)
                 [Text ''Hint'']]]]]"

text \<open>A link whose \<^verbatim>\<open>href\<close> has 60 characters.\<close>

definition link_60 :: element where
  "link_60 = visible_box ''a''
     [(''href'', ''https://example.com/catalogue/items/0123456789/details?ref=1''), (''id'', ''home'')]
     10 10 100 20"

text \<open>
  \<^verbatim>\<open><label>Pick<input type="text"><input type="text"></label>\<close>: two visible inputs in
  one label, and the document the indexers leave of it.
\<close>

definition page_shared_label :: document where
  "page_shared_label =
     [Elem (visible_box ''html'' [] 0 0 800 600)
        [Elem (visible_box ''body'' [] 0 0 800 600)
           [Elem (visible_box ''label'' [] 10 10 400 30)
              [Text ''Pick'',
               Elem (visible_box ''input'' [(''type'', ''text'')] 10 60 100 30) [],
               Elem (visible_box ''input'' [(''type'', ''text'')] 10 200 100 30) []]]]]"

definition window_shared_label :: window where
  "window_shared_label =
     viewport (\<lambda>x y. if x = 110 \<and> y = 25 then [1, 0, 0, 0]
                     else if x = 250 \<and> y = 25 then [2, 0, 0, 0] else [0, 0])"

definition page_shared_label_marked :: document where
  "page_shared_label_marked =
     [Elem (visible_box ''html'' [] 0 0 800 600)
        [Elem (visible_box ''body'' [] 0 0 800 600)
           [Elem (visible_box ''label'' [(''data-bbox-gwa-id'', ''gwa-element-1'')] 10 10 400 30)
              [Text ''Pick'',
               Elem (visible_box ''input''
                       [(''type'', ''text''), (''data-gwa-id'', ''gwa-element-0'')] 10 60 100 30) [],
               Elem (visible_box ''input''
                       [(''type'', ''text''), (''data-gwa-id'', ''gwa-element-1'')] 10 200 100 30) []]]]]"

text \<open>
  \<^verbatim>\<open><button>Go</button><label>Name<input type="text"></label>\<close>, and the document the
  indexers leave of it.
\<close>

definition page_form :: document where
  "page_form =
     [Elem (visible_box ''html'' [] 0 0 800 600)
        [Elem (visible_box ''body'' [] 0 0 800 600)
           [Elem ((visible_box ''button'' [] 10 10 80 30)\<lparr>innerText := ''Go''\<rparr>) [Text ''Go''],
            Elem (visible_box ''label'' [] 50 10 300 30)
              [Text ''Name'',
               Elem (visible_box ''input'' [(''type'', ''text'')] 50 100 100 30) []]]]]"

definition window_form :: window where
  "window_form =
     viewport (\<lambda>x y. if x = 50 \<and> y = 25 then [0, 0, 0]
                     else if x = 150 \<and> y = 65 then [1, 1, 0, 0] else [0, 0])"

definition page_form_marked :: document where
  "page_form_marked =
     [Elem (visible_box ''html'' [] 0 0 800 600)
        [Elem (visible_box ''body'' [] 0 0 800 600)
           [Elem ((visible_box ''button''
                     [(''data-gwa-id'', ''gwa-element-0''), (''data-bbox-gwa-id'', ''gwa-element-0'')]
                     10 10 80 30)\<lparr>innerText := ''Go''\<rparr>) [Text ''Go''],
            Elem (visible_box ''label'' [(''data-bbox-gwa-id'', ''gwa-element-1'')] 50 10 300 30)
              [Text ''Name'',
               Elem (visible_box ''input''
                       [(''type'', ''text''), (''data-gwa-id'', ''gwa-element-1'')] 50 100 100 30) []]]]]"

text \<open>The marked checkbox of \<open>page_cut_toggle\<close>.\<close>

definition page_cut_toggle_marked :: document where
  "page_cut_toggle_marked =
     [Elem (visible_box ''html'' [] 0 0 800 600)
        [Elem (visible_box ''body'' [] 0 0 800 600)
           [Elem (visible_box ''input''
                    [(''type'', ''checkbox''), (''data-gwa-id'', ''gwa-element-0''),
                     (''data-bbox-gwa-id'', ''gwa-element-0'')] 10 (-5) 20 20) []]]]"

definition page_submit_marked :: document where
  "page_submit_marked =
     [Elem (visible_box ''html'' [] 0 0 800 600)
        [Elem (visible_box ''body'' [] 0 0 800 600)
           [Elem submit_button [Text ''Submit''],
            Elem ((visible_box ''input'' [] 50 10 80 30)\<lparr>display := ''none''\<rparr>) [],
            Elem home_link [Text ''Home'']]]]"

text \<open>
  Three controls in a body: the link \<open>link_60\<close>; a link with the text Report whose
  \<^verbatim>\<open>href\<close> has 66 characters, two of them consecutive spaces among the first 47; and
  \<^verbatim>\<open><input type="checkbox" id="" checked="">\<close>. Then the document the rich indexer leaves
  of it.
\<close>

definition long_href :: string where
  "long_href = ''https://example.com/search?q=annual  report&page=2&sort=descending''"

definition long_link :: element where
  "long_link = (visible_box ''a'' [(''href'', long_href)] 50 10 100 20)\<lparr>innerText := ''Report''\<rparr>"

definition checked_box :: element where
  "checked_box =
     visible_box ''input'' [(''type'', ''checkbox''), (''id'', []), (''checked'', [])] 90 10 20 20"

definition page_long_link :: document where
  "page_long_link =
     [Elem (visible_box ''html'' [] 0 0 800 600)
        [Elem (visible_box ''body'' [] 0 0 800 600)
           [Elem link_60 [], Elem long_link [Text ''Report''], Elem checked_box []]]]"

definition window_long_link :: window where
  "window_long_link =
     viewport (\<lambda>x y. if x = 60 \<and> y = 20 then [0, 0, 0]
                     else if x = 60 \<and> y = 60 then [1, 0, 0]
                     else if x = 20 \<and> y = 100 then [2, 0, 0] else [0, 0])"

definition marked_with :: "nat \<Rightarrow> element \<Rightarrow> element" where
  "marked_with i e =
     e\<lparr>attributes := attributes e @
          [(''data-gwa-id'', marker i), (''data-bbox-gwa-id'', marker i)]\<rparr>"

definition page_long_link_marked :: document where
  "page_long_link_marked =
     [Elem (visible_box ''html'' [] 0 0 800 600)
        [Elem (visible_box ''body'' [] 0 0 800 600)
           [Elem (marked_with 0 link_60) [], Elem (marked_with 1 long_link) [Text ''Report''],
            Elem (marked_with 2 checked_box) []]]]"

section \<open>Marker attributes do not influence the indexer\<close>

lemma removeAttributeAll_map: "removeAttributeAll k ns = map (strip_node k) ns"
  by (induction k ns rule: removeAttributeAll.induct) (simp_all add: strip_element_def)

lemma length_removeAttributeAll [simp]: "length (removeAttributeAll k ns) = length ns"
  by (simp add: removeAttributeAll_map)

lemma node_at_path_removeAttributeAll:
  "node_at_path (removeAttributeAll k ns) p = map_option (strip_node k) (node_at_path ns p)"
proof (induction ns p rule: node_at_path.induct)
  case (1 ns)
  show ?case by simp
next
  case (2 ns i p)
  show ?case
  proof (cases "i < length ns")
    case False
    then show ?thesis by simp
  next
    case True
    show ?thesis
    proof (cases "ns ! i")
      case (Text s)
      with True show ?thesis by (simp add: removeAttributeAll_map)
    next
      case (Elem e cs)
      with True 2 show ?thesis by (simp add: removeAttributeAll_map)
    qed
  qed
qed

lemma select_removeAttributeAll:
  assumes "\<And>e. P (strip_element k e) = P e"
  shows "select P p i (removeAttributeAll k ns) = select P p i ns"
  using assms
  by (induction P p i ns rule: select.induct) (simp_all add: strip_element_def[symmetric])

lemma text_of_strip:
  "text_of (strip_node k n) = text_of n"
  "text_of_list (map (strip_node k) ns) = text_of_list ns"
  by (induction n and ns rule: text_of_text_of_list.induct) (simp_all add: removeAttributeAll_map)

lemma text_of_removeAttributeAll [simp]:
  "text_of_list (removeAttributeAll k ns) = text_of_list ns"
  by (simp add: removeAttributeAll_map text_of_strip)


lemma unmark_fields [simp]:
  "tagName (unmark e) = tagName e" "display (unmark e) = display e"
  "visibility (unmark e) = visibility e" "pointerEvents (unmark e) = pointerEvents e"
  "offsetWidth (unmark e) = offsetWidth e" "offsetHeight (unmark e) = offsetHeight e"
  "rect_top (unmark e) = rect_top e" "rect_left (unmark e) = rect_left e"
  "rect_width (unmark e) = rect_width e" "rect_height (unmark e) = rect_height e"
  "innerText (unmark e) = innerText e" "style (unmark e) = style e"
  by (simp_all add: unmark_def strip_element_def)

lemma attr_unmark:
  "k \<noteq> ''data-gwa-id'' \<Longrightarrow> k \<noteq> ''data-bbox-gwa-id'' \<Longrightarrow> attr (unmark e) k = attr e k"
  by (simp add: unmark_def strip_element_def attr_def delete_conv)

lemma attr_unmark_names [simp]:
  "attr (unmark e) ''id'' = attr e ''id''" "attr (unmark e) ''for'' = attr e ''for''"
  "attr (unmark e) ''type'' = attr e ''type''" "attr (unmark e) ''role'' = attr e ''role''"
  "attr (unmark e) ''value'' = attr e ''value''"
  "attr (unmark e) ''placeholder'' = attr e ''placeholder''"
  by (simp_all add: attr_unmark)

lemma unmark_derived [simp]:
  "element_id (unmark e) = element_id e" "input_type_is (unmark e) t = input_type_is e t"
  "isToggle (unmark e) = isToggle e" "isSmallFormElement (unmark e) = isSmallFormElement e"
  "inViewport w (unmark e) = inViewport w e"
  by (simp_all add: element_id_def input_type_is_def isToggle_def isSmallFormElement_def
      inViewport_def rect_bottom_def rect_right_def)

lemma reset_map: "reset ns = map (strip_node ''data-bbox-gwa-id'' \<circ> strip_node ''data-gwa-id'') ns"
  by (simp add: reset_def removeAttributeAll_map)

lemma node_at_path_reset:
  "node_at_path (reset d) p =
     map_option (strip_node ''data-bbox-gwa-id'' \<circ> strip_node ''data-gwa-id'') (node_at_path d p)"
  by (simp add: reset_def node_at_path_removeAttributeAll option.map_comp)

lemma element_at_reset [simp]: "element_at (reset d) r = map_option unmark (element_at d r)"
  by (simp add: element_at_def node_at_path_reset unmark_def split: option.splits node.splits)

lemma childNodes_reset [simp]: "childNodes (reset d) r = reset (childNodes d r)"
proof (cases "node_at_path d (rev r)")
  case None
  then show ?thesis by (simp add: childNodes_def node_at_path_reset) (simp add: reset_def)
next
  case (Some n)
  then show ?thesis
    by (cases n) (simp_all add: childNodes_def node_at_path_reset, simp_all add: reset_def)
qed

lemma select_reset:
  assumes "\<And>e. P (unmark e) = P e"
  shows "select P p i (reset ns) = select P p i ns"
  using assms
proof (induction P p i ns rule: select.induct)
  case (1 P p i)
  show ?case by (simp add: reset_def)
next
  case (2 P p i s rest)
  then show ?case by (simp add: reset_def)
next
  case (3 P p i e cs rest)
  have "P (unmark e) = P e" by (rule 3)
  with 3 show ?case by (simp add: reset_def unmark_def strip_element_def)
qed

lemma text_of_list_reset [simp]: "text_of_list (reset ns) = text_of_list ns"
  by (simp add: reset_def)

lemma getAttribute_reset:
  "k \<noteq> ''data-gwa-id'' \<Longrightarrow> k \<noteq> ''data-bbox-gwa-id'' \<Longrightarrow> getAttribute (reset d) r k = getAttribute d r k"
  by (simp add: getAttribute_def attr_unmark split: option.splits)

lemma isHiddenByAncestors_reset [simp]: "isHiddenByAncestors (reset d) r = isHiddenByAncestors d r"
  by (induction r) (auto split: option.splits)

lemma commonParent_reset [simp]: "commonParent (reset d) r l = commonParent d r l"
  by (induction r) (auto split: option.splits)

lemma getElementsByTagName_reset [simp]:
  "getElementsByTagName (reset d) r t = getElementsByTagName d r t"
  by (simp add: getElementsByTagName_def select_reset)

lemma labelParent_reset [simp]: "labelParent (reset d) el ident r = labelParent d el ident r"
  by (induction r) (auto simp: getAttribute_reset split: option.splits)

lemma querySelector_reset:
  "(\<And>e. P (unmark e) = P e) \<Longrightarrow> querySelector (reset d) P = querySelector d P"
  by (simp add: querySelector_def querySelectorAll_def select_reset)

lemma query_label_for_reset [simp]: "query_label_for (reset d) ident = query_label_for d ident"
  by (simp add: query_label_for_def querySelector_reset)

lemma getParentWithLabel_reset [simp]: "getParentWithLabel (reset d) r = getParentWithLabel d r"
  by (simp add: getParentWithLabel_def cong: option.case_cong sum.case_cong if_cong)

lemma hitsLabelOrContainer_reset [simp]:
  "hitsLabelOrContainer (reset d) el ident r = hitsLabelOrContainer d el ident r"
  by (induction r) (auto split: option.splits)

lemma smallParentHidden_reset [simp]: "smallParentHidden (reset d) r = smallParentHidden d r"
  by (simp add: smallParentHidden_def cong: option.case_cong sum.case_cong if_cong split: option.splits)

lemma isElementVisible_reset [simp]: "isElementVisible w (reset d) r = isElementVisible w d r"
  by (cases "element_at d r") (simp_all add: isElementVisible_def Let_def cong: sum.case_cong bool.case_cong if_cong)


lemma reset_update_path:
  assumes "\<And>e. unmark (f e) = unmark e"
  shows "reset (update_path f p ns) = reset ns"
  using assms
proof (induction f p ns rule: update_path.induct)
  case (1 f ns)
  show ?case by simp
next
  case (2 f i p ns)
  show ?case
  proof (cases "i < length ns")
    case False
    then show ?thesis by simp
  next
    case True
    show ?thesis
    proof (cases "ns ! i")
      case (Text s)
      with True show ?thesis by simp
    next
      case (Elem e cs)
      let ?g = "strip_node ''data-bbox-gwa-id'' \<circ> strip_node ''data-gwa-id''"
      have u: "unmark (f e) = unmark e" by (rule 2)
      have ih: "p \<noteq> [] \<Longrightarrow> reset (update_path f p cs) = reset cs"
        using 2 True Elem by simp
      have "?g (if p = [] then Elem (f e) cs else Elem e (update_path f p cs)) = ?g (ns ! i)"
        using u ih by (simp add: Elem unmark_def reset_def)
      then have "map ?g (ns[i := (if p = [] then Elem (f e) cs else Elem e (update_path f p cs))])
                 = map ?g ns"
        by (simp add: map_update del: o_apply) (metis list_update_id map_update)
      with True Elem show ?thesis by (simp add: reset_map del: o_apply)
    qed
  qed
qed

lemma unmark_set_marker:
  assumes "k = ''data-gwa-id'' \<or> k = ''data-bbox-gwa-id''"
  shows "unmark (e\<lparr>attributes := AList.update k v (attributes e)\<rparr>) = unmark e"
proof -
  have a: "AList.delete ''data-bbox-gwa-id'' (AList.delete ''data-gwa-id'' (AList.update k v al)) =
        AList.delete ''data-bbox-gwa-id'' (AList.delete ''data-gwa-id'' al)" for al
  proof (cases "k = ''data-gwa-id''")
    case True
    then show ?thesis by (simp add: delete_update_same)
  next
    case False
    with assms have k: "k = ''data-bbox-gwa-id''" by simp
    show ?thesis unfolding k
      by (simp add: delete_update delete_update_same)
  qed
  show ?thesis by (simp add: unmark_def strip_element_def a)
qed

lemma reset_setAttribute:
  "k = ''data-gwa-id'' \<or> k = ''data-bbox-gwa-id'' \<Longrightarrow> reset (setAttribute d r k v) = reset d"
  unfolding setAttribute_def by (rule reset_update_path) (rule unmark_set_marker)

lemma removeAttributeAll_idem: "removeAttributeAll k (removeAttributeAll k ns) = removeAttributeAll k ns"
  by (induction k ns rule: removeAttributeAll.induct) (simp_all add: delete_idem)

lemma removeAttributeAll_twist:
  "removeAttributeAll k (removeAttributeAll l ns) = removeAttributeAll l (removeAttributeAll k ns)"
  by (induction k ns rule: removeAttributeAll.induct) (simp_all add: delete_twist)

lemma reset_idem [simp]: "reset (reset d) = reset d"
  by (simp add: reset_def removeAttributeAll_twist[of "''data-gwa-id''" "''data-bbox-gwa-id''"]
      removeAttributeAll_idem)


lemma textContent_reset [simp]: "textContent (reset d) r = textContent d r"
  by (simp add: textContent_def)

lemma first_element_from_reset [simp]:
  "first_element_from i (drop n (reset ns)) = first_element_from i (drop n ns)"
proof -
  have "first_element_from i (map (strip_node b \<circ> strip_node a) ms) = first_element_from i ms"
    for a b ms
    by (induction i ms rule: first_element_from.induct) simp_all
  then show ?thesis by (simp add: reset_map drop_map del: o_apply)
qed

lemma last_element_from_reset [simp]:
  "last_element_from i (take n (reset ns)) found = last_element_from i (take n ns) found"
proof -
  have "last_element_from i (map (strip_node b \<circ> strip_node a) ms) found =
        last_element_from i ms found" for a b ms
    by (induction i ms found rule: last_element_from.induct) simp_all
  then show ?thesis by (simp add: reset_map take_map del: o_apply)
qed

lemma nextElementSibling_reset [simp]: "nextElementSibling (reset d) r = nextElementSibling d r"
  by (simp add: nextElementSibling_def split: list.splits)

lemma previousElementSibling_reset [simp]:
  "previousElementSibling (reset d) r = previousElementSibling d r"
  by (simp add: previousElementSibling_def split: list.splits)

lemma tagIs_reset [simp]: "tagIs (reset d) r t = tagIs d r t"
  by (simp add: tagIs_def split: option.splits)

lemma labelText_reset [simp]:
  "labelText (reset d) r = labelText d r" "labelText_escaped (reset d) r = labelText_escaped d r"
  by (simp_all add: labelText_def labelText_escaped_def)

lemma forLabelText_reset [simp]: "forLabelText (reset d) (unmark e) t = forLabelText d e t"
  by (simp add: forLabelText_def cong: sum.case_cong if_cong)

lemma fallbacks_reset [simp]:
  "wrappingLabelText (reset d) r t = wrappingLabelText d r t"
  "siblingSpanText (reset d) r t = siblingSpanText d r t"
  "nextSiblingText (reset d) r t = nextSiblingText d r t"
  "valueOrPlaceholder (unmark e) t = valueOrPlaceholder e t"
  by (simp_all add: wrappingLabelText_def siblingSpanText_def nextSiblingText_def
      valueOrPlaceholder_def split: option.splits list.splits)

lemma innerText_001_reset [simp]: "innerText_001 (reset d) r (unmark e) = innerText_001 d r e"
  by (simp add: innerText_001_def Let_def cong: sum.case_cong)

lemma innerText_002_reset [simp]: "innerText_002 (reset d) r (unmark e) = innerText_002 d r e"
  by (simp add: innerText_002_def Let_def cong: sum.case_cong)

lemma attribute_text_001_unmark:
  "a \<noteq> ''data-gwa-id'' \<Longrightarrow> a \<noteq> ''data-bbox-gwa-id'' \<Longrightarrow>
   attribute_text_001 (unmark e) a = attribute_text_001 e a"
  by (simp add: attribute_text_001_def attr_unmark)

lemma attribute_text_002_unmark:
  "a \<noteq> ''data-gwa-id'' \<Longrightarrow> a \<noteq> ''data-bbox-gwa-id'' \<Longrightarrow>
   attribute_text_002 (unmark e) a = attribute_text_002 e a"
  by (simp add: attribute_text_002_def attr_unmark)

lemma foldl_attribute_text:
  assumes "\<And>a. a \<in> set as \<Longrightarrow> f (unmark e) a = f e a"
  shows "foldl (\<lambda>html a. html @ f (unmark e) a) h as = foldl (\<lambda>html a. html @ f e a) h as"
  using assms by (induction as arbitrary: h) simp_all

lemma simplified_html_001_reset:
  "simplified_html_001 (reset d) r (unmark e) = simplified_html_001 d r e"
proof -
  have "foldl (\<lambda>html a. html @ attribute_text_001 (unmark e) a) h
          [''aria-label'', ''alt'', ''placeholder'', ''value''] =
        foldl (\<lambda>html a. html @ attribute_text_001 e a) h
          [''aria-label'', ''alt'', ''placeholder'', ''value'']" for h
    by (rule foldl_attribute_text) (auto simp: attribute_text_001_unmark)
  then show ?thesis by (simp add: simplified_html_001_def cong: sum.case_cong)
qed

lemma simplified_html_002_reset:
  "simplified_html_002 (reset d) r (unmark e) = simplified_html_002 d r e"
proof -
  have "foldl (\<lambda>html a. html @ attribute_text_002 (unmark e) a) h attrs_002 =
        foldl (\<lambda>html a. html @ attribute_text_002 e a) h attrs_002" for h
    by (rule foldl_attribute_text) (auto simp: attribute_text_002_unmark attrs_002_def)
  then show ?thesis by (simp add: simplified_html_002_def cong: sum.case_cong)
qed

lemma targets_reset:
  "primaryTarget_001 (reset d) r (unmark e) = primaryTarget_001 d r e"
  "primaryTarget_002 (reset d) r (unmark e) = primaryTarget_002 d r e"
  "bboxTarget (reset d) r (unmark e) = bboxTarget d r e"
  by (simp_all add: primaryTarget_001_def primaryTarget_002_def bboxTarget_def)


lemma isElementVisible_element:
  "isElementVisible w d x = Inr True \<Longrightarrow> element_at d x \<noteq> None"
  by (cases "element_at d x") (simp_all add: isElementVisible_def)

lemma update_fresh: "k \<notin> fst ` set al \<Longrightarrow> AList.update k v al = al @ [(k, v)]"
  by (induction al) auto

lemma visit_skip:
  "isElementVisible w (reset (doc st)) x = Inr False \<Longrightarrow> visit sh pt w st x = Inr st"
  by (simp add: visit_def)

lemma visit_error:
  "isElementVisible w (reset (doc st)) x = Inl err \<Longrightarrow> visit sh pt w st x = Inl err"
  by (simp add: visit_def)

lemma visit_visible:
  assumes sh: "\<And>d r e. sh (reset d) r (unmark e) = sh d r e"
    and vis: "isElementVisible w (reset (doc st)) x = Inr True"
    and res: "visit sh pt w st x = Inr st'"
  shows "reset (doc st') = reset (doc st) \<and> visibleIndex st' = Suc (visibleIndex st) \<and>
         (\<exists>html. describe sh (reset (doc st)) x = Inr html \<and>
            element_simplified_htmls st' =
              AList.update (visibleIndex st) html (element_simplified_htmls st))"
proof -
  from vis have v: "isElementVisible w (doc st) x = Inr True" by simp
  from isElementVisible_element[OF v] obtain e where e: "element_at (doc st) x = Some e" by auto
  from res v e obtain html where h: "sh (doc st) x e = Inr html"
    by (auto simp: visit_def split: sum.splits)
  from res v e h obtain t where t: "pt (doc st) x e = Inr t"
    by (auto simp: visit_def split: sum.splits)
  let ?d1 = "setAttribute (doc st) t ''data-gwa-id'' (marker (visibleIndex st))"
  from res v e h t obtain b where b: "bboxTarget ?d1 x e = Inr b"
    by (auto simp: visit_def Let_def split: sum.splits)
  from res v e h t b have st': "st' = \<lparr>doc = setAttribute ?d1 b ''data-bbox-gwa-id'' (marker (visibleIndex st)),
        element_simplified_htmls = AList.update (visibleIndex st) html (element_simplified_htmls st),
        visibleIndex = Suc (visibleIndex st)\<rparr>"
    by (simp add: visit_def Let_def)
  have "describe sh (reset (doc st)) x = Inr html"
    using e h by (simp add: describe_def sh)
  then show ?thesis by (simp add: st' reset_setAttribute)
qed

lemma forEach_visit:
  assumes sh: "\<And>d r e. sh (reset d) r (unmark e) = sh d r e"
  shows "forEach (visit sh pt w) st xs = Inr st' \<Longrightarrow> reset (doc st) = d0 \<Longrightarrow>
         map fst (element_simplified_htmls st) = [0..<visibleIndex st] \<Longrightarrow>
         reset (doc st') = d0 \<and>
         visibleIndex st' = visibleIndex st + length (visibleElements w d0 xs) \<and>
         map fst (element_simplified_htmls st') = [0..<visibleIndex st'] \<and>
         map (Inr \<circ> snd) (element_simplified_htmls st') =
           map (Inr \<circ> snd) (element_simplified_htmls st) @
           map (describe sh d0) (visibleElements w d0 xs)"
proof (induction xs arbitrary: st)
  case Nil
  then show ?case by (simp add: visibleElements_def)
next
  case (Cons x xs)
  from Cons.prems(1) obtain st1 where s1: "visit sh pt w st x = Inr st1"
    and rest: "forEach (visit sh pt w) st1 xs = Inr st'"
    by (auto split: sum.splits)
  show ?case
  proof (cases "isElementVisible w d0 x")
    case (Inl err)
    with s1 Cons.prems(2) show ?thesis by (simp add: visit_error)
  next
    case (Inr v)
    show ?thesis
    proof (cases v)
      case False
      with Inr Cons.prems(2) s1 have "st1 = st" by (simp add: visit_skip)
      with Cons.IH[OF rest] Cons.prems Inr False show ?thesis
        by (simp add: visibleElements_def)
    next
      case True
      with Inr Cons.prems(2) have vis: "isElementVisible w (reset (doc st)) x = Inr True" by simp
      from visit_visible[OF sh vis s1] Cons.prems(2) obtain html where
        r: "reset (doc st1) = d0" and i: "visibleIndex st1 = Suc (visibleIndex st)"
        and h: "describe sh d0 x = Inr html"
        and m: "element_simplified_htmls st1 =
                  AList.update (visibleIndex st) html (element_simplified_htmls st)"
        by auto
      have notin: "visibleIndex st \<notin> fst ` set (element_simplified_htmls st)"
        using Cons.prems(3) by (metis atLeastLessThan_iff less_irrefl list.set_map set_upt)
      have m': "element_simplified_htmls st1 = element_simplified_htmls st @ [(visibleIndex st, html)]"
        using notin unfolding m by (rule update_fresh)
      have k: "map fst (element_simplified_htmls st1) = [0..<visibleIndex st1]"
        by (simp add: m' i Cons.prems(3))
      from Cons.IH[OF rest r k] show ?thesis
        using Inr True i h by (simp add: visibleElements_def m')
    qed
  qed
qed

lemma querySelectorAll_reset:
  "(\<And>e. P (unmark e) = P e) \<Longrightarrow> querySelectorAll (reset d) P = querySelectorAll d P"
  by (simp add: querySelectorAll_def select_reset)

lemma candidate_unmark [simp]:
  "candidate_001 (unmark e) = candidate_001 e" "candidate_002 (unmark e) = candidate_002 e"
  by (simp_all add: candidate_001_def candidate_002_def)

lemma describe_reset:
  "(\<And>d r e. sh (reset d) r (unmark e) = sh d r e) \<Longrightarrow> describe sh (reset d) x = describe sh d x"
  by (simp add: describe_def split: option.splits)

lemma visibleElements_reset: "visibleElements w (reset d) xs = visibleElements w d xs"
  by (simp add: visibleElements_def)

lemma scan_dense:
  assumes sh: "\<And>d r e. sh (reset d) r (unmark e) = sh d r e"
    and cand: "\<And>e. cand (unmark e) = cand e"
    and res: "scan cand sh pt w d = Inr (d', m)"
  shows "map fst m = [0..<length (visibleElements w d (querySelectorAll d cand))] \<and>
         map (Inr \<circ> snd) m = map (describe sh d) (visibleElements w d (querySelectorAll d cand))"
proof -
  let ?st0 = "\<lparr>doc = reset d, element_simplified_htmls = [], visibleIndex = 0\<rparr>"
  from res obtain st where f: "forEach (visit sh pt w) ?st0 (querySelectorAll d cand) = Inr st"
    and m: "m = element_simplified_htmls st"
    by (auto simp: scan_def Let_def querySelectorAll_reset cand split: sum.splits)
  have "describe sh (reset d) = describe sh d"
    by (rule ext) (rule describe_reset, rule sh)
  with forEach_visit[OF sh f, of "reset d"] show ?thesis
    by (simp add: m visibleElements_reset)
qed

section \<open>The fallback chain of an input\<close>

lemma forLabelText_chain:
  "forLabelText d e [] = text_of_for_label d e"
  by (auto simp: forLabelText_def text_of_for_label_def split: sum.splits)

lemma wrapping_chain:
  "wrappingLabelText d x t = first_nonempty [t, text_of_wrapping_label d x]"
  by (simp add: wrappingLabelText_def text_of_wrapping_label_def)

lemma span_chain:
  "siblingSpanText d x t = first_nonempty [t, text_of_sibling_span d x]"
  by (simp add: siblingSpanText_def text_of_sibling_span_def text_of_previous_span_def)

lemma value_chain:
  "valueOrPlaceholder e t =
     first_nonempty [t, text_of_attribute e ''value'', text_of_attribute e ''placeholder'']"
  by (auto simp: valueOrPlaceholder_def text_of_attribute_def split: option.splits list.splits)

lemma next_chain:
  "nextSiblingText d x t = first_nonempty [t, text_of_next_sibling_escaped d x]"
  by (simp add: nextSiblingText_def text_of_next_sibling_escaped_def)

lemma foldl_append_concat: "foldl (\<lambda>h a. h @ f a) h0 as = h0 @ concat (map f as)"
  by (induction as arbitrary: h0) simp_all

lemma simplified_html_002_shape:
  "innerText_002 d x e = Inr t \<Longrightarrow>
   simplified_html_002 d x e =
     Inr (trim (collapse_whitespace
       (''<'' @ tagName e @ concat (map (attribute_text_002 e) attrs_002) @ ''>'' @ t @
        ''</'' @ tagName e @ ''>'')))"
  by (simp add: simplified_html_002_def foldl_append_concat)

section \<open>Trees: queries, removal and insertion\<close>

lemma free_of_append [simp]: "free_of P (xs @ ys) = (free_of P xs \<and> free_of P ys)"
  by (induction P xs rule: free_of.induct) auto

lemma select_append:
  "select P p i (xs @ ys) = select P p i xs @ select P p (i + length xs) ys"
  by (induction P p i xs rule: select.induct) simp_all

lemma texts_where_append [simp]:
  "texts_where P (xs @ ys) = texts_where P xs @ texts_where P ys"
  by (induction P xs rule: texts_where.induct) simp_all

lemma remove_matching_append [simp]:
  "remove_matching P (xs @ ys) = remove_matching P xs @ remove_matching P ys"
  by (induction P xs rule: remove_matching.induct) simp_all

lemma free_of_select: "free_of P ns \<Longrightarrow> select P p i ns = []"
  by (induction P p i ns rule: select.induct) simp_all

lemma free_of_texts: "free_of P ns \<Longrightarrow> texts_where P ns = []"
  by (induction P ns rule: texts_where.induct) simp_all

lemma free_of_remove_id: "free_of P ns \<Longrightarrow> remove_matching P ns = ns"
  by (induction P ns rule: remove_matching.induct) simp_all

lemma free_of_remove_same: "free_of P (remove_matching P ns)"
  by (induction P ns rule: remove_matching.induct) simp_all

lemma free_of_remove_other: "free_of Q ns \<Longrightarrow> free_of Q (remove_matching P ns)"
  by (induction P ns rule: remove_matching.induct) simp_all

lemma free_of_nth:
  "free_of P ns \<Longrightarrow> i < length ns \<Longrightarrow> ns ! i = Elem e cs \<Longrightarrow> \<not> P e \<and> free_of P cs"
proof (induction P ns arbitrary: i rule: free_of.induct)
  case (1 P)
  then show ?case by simp
next
  case (2 P s ns)
  then show ?case by (cases i) auto
next
  case (3 P e' cs' ns)
  then show ?case by (cases i) auto
qed

lemma free_of_update:
  "free_of P ns \<Longrightarrow> \<not> P e \<Longrightarrow> free_of P cs \<Longrightarrow> free_of P (ns[i := Elem e cs])"
proof (induction P ns arbitrary: i rule: free_of.induct)
  case (1 P)
  then show ?case by simp
next
  case (2 P s ns)
  then show ?case by (cases i) auto
next
  case (3 P e' cs' ns)
  then show ?case by (cases i) auto
qed

lemma length_append_path [simp]: "length (append_path new p ns) = length ns"
  by (cases p) (auto split: node.splits)

lemma append_path_Nil [simp]: "append_path [] p ns = ns"
proof (induction "[] :: node list" p ns rule: append_path.induct)
  case (1 ns)
  show ?case by simp
next
  case (2 i p ns)
  then show ?case by (auto split: node.splits simp: list_update_same_conv)
qed

lemma append_path_append:
  "append_path ys p (append_path xs p ns) = append_path (xs @ ys) p ns"
proof (induction xs p ns rule: append_path.induct)
  case (1 new ns)
  show ?case by simp
next
  case (2 new i p ns)
  then show ?case by (auto split: node.splits)
qed

lemma select_Cons: "select P p k (x # rest) = select P p k [x] @ select P p (Suc k) rest"
  using select_append[of P p k "[x]" rest] by simp

lemma select_update:
  assumes "i < length ns" and "select P p (k + i) [x] = select P p (k + i) [ns ! i]"
  shows "select P p k (ns[i := x]) = select P p k ns"
proof -
  have l: "length (take i ns) = i" using assms(1) by simp
  have "select P p k (take i ns @ x # drop (Suc i) ns) =
        select P p k (take i ns) @ select P p (k + i) [x] @ select P p (Suc (k + i)) (drop (Suc i) ns)"
    using select_append[of P p k "take i ns" "x # drop (Suc i) ns"]
      select_Cons[of P p "k + i" x "drop (Suc i) ns"] l by simp
  moreover have "select P p k (take i ns @ ns ! i # drop (Suc i) ns) =
        select P p k (take i ns) @ select P p (k + i) [ns ! i] @
        select P p (Suc (k + i)) (drop (Suc i) ns)"
    using select_append[of P p k "take i ns" "ns ! i # drop (Suc i) ns"]
      select_Cons[of P p "k + i" "ns ! i" "drop (Suc i) ns"] l by simp
  ultimately have "select P p k (take i ns @ x # drop (Suc i) ns) =
        select P p k (take i ns @ ns ! i # drop (Suc i) ns)"
    using assms(2) by simp
  then show ?thesis
    using assms(1) by (simp add: upd_conv_take_nth_drop id_take_nth_drop[symmetric])
qed

lemma select_append_path:
  "free_of P new \<Longrightarrow> select P q k (append_path new p ns) = select P q k ns"
proof (induction new p ns arbitrary: q k rule: append_path.induct)
  case (1 new ns)
  show ?case by simp
next
  case (2 new i p ns)
  show ?case
  proof (cases "i < length ns")
    case False
    then show ?thesis by simp
  next
    case True
    show ?thesis
    proof (cases "ns ! i")
      case (Text s)
      with True show ?thesis by simp
    next
      case (Elem e cs)
      have "select P q (k + i) [Elem e (if p = [] then cs @ new else append_path new p cs)] =
            select P q (k + i) [ns ! i]"
        using 2 True Elem by (simp add: select_append free_of_select)
      with True Elem show ?thesis by (simp add: select_update)
    qed
  qed
qed

lemma texts_where_Cons: "texts_where P (x # rest) = texts_where P [x] @ texts_where P rest"
  using texts_where_append[of P "[x]" rest] by simp

lemma texts_where_append_path:
  "free_of P ns \<Longrightarrow> element_path ns p \<Longrightarrow> texts_where P (append_path new p ns) = texts_where P new"
proof (induction new p ns rule: append_path.induct)
  case (1 new ns)
  then show ?case by (simp add: element_path_def)
next
  case (2 new i p ns)
  from 2(3) have i: "i < length ns" by (simp add: element_path_def split: if_splits)
  from 2(3) i obtain e cs where n: "ns ! i = Elem e cs"
    by (cases "ns ! i") (auto simp: element_path_def split: if_splits)
  from free_of_nth[OF 2(2) i n] have e: "\<not> P e" and cs: "free_of P cs" by simp_all
  have sub: "texts_where P (if p = [] then cs @ new else append_path new p cs) = texts_where P new"
  proof (cases "p = []")
    case True
    then show ?thesis by (simp add: free_of_texts cs)
  next
    case False
    with 2(3) i n have "element_path cs p" by (simp add: element_path_def)
    with 2(1)[OF i n False cs] False show ?thesis by simp
  qed
  have parts: "free_of P (take i ns)" "free_of P (drop (Suc i) ns)"
    using 2(2) free_of_append[of P "take i ns" "drop i ns"] free_of_append[of P "take (Suc i) ns" "drop (Suc i) ns"]
    by simp_all
  have "texts_where P (ns[i := Elem e (if p = [] then cs @ new else append_path new p cs)]) =
        texts_where P new"
    using i e sub parts
    by (simp add: upd_conv_take_nth_drop free_of_texts)
  with i n show ?case by simp
qed

lemma remove_matching_update:
  "free_of P ns \<Longrightarrow> \<not> P e \<Longrightarrow> i < length ns \<Longrightarrow>
   remove_matching P (ns[i := Elem e cs]) = ns[i := Elem e (remove_matching P cs)]"
proof (induction P ns arbitrary: i rule: remove_matching.induct)
  case (1 P)
  then show ?case by simp
next
  case (2 P s rest)
  then show ?case by (cases i) (auto simp: free_of_remove_id)
next
  case (3 P e' cs' rest)
  then show ?case by (cases i) (auto simp: free_of_remove_id)
qed

lemma remove_matching_append_path:
  "free_of P ns \<Longrightarrow>
   remove_matching P (append_path new p ns) = append_path (remove_matching P new) p ns"
proof (induction new p ns rule: append_path.induct)
  case (1 new ns)
  then show ?case by (simp add: free_of_remove_id)
next
  case (2 new i p ns)
  show ?case
  proof (cases "i < length ns")
    case False
    with 2(2) show ?thesis by (simp add: free_of_remove_id)
  next
    case True
    show ?thesis
    proof (cases "ns ! i")
      case (Text s)
      with True 2(2) show ?thesis by (simp add: free_of_remove_id)
    next
      case (Elem e cs)
      from free_of_nth[OF 2(2) True Elem] have e: "\<not> P e" and cs: "free_of P cs" by simp_all
      show ?thesis
        using True Elem e cs 2 by (simp add: remove_matching_update free_of_remove_id)
    qed
  qed
qed

lemma node_at_path_append_path:
  "node_at_path ns q = Some (Elem e cs) \<Longrightarrow>
   \<exists>cs'. node_at_path (append_path new p ns) q = Some (Elem e cs')"
proof (induction new p ns arbitrary: q rule: append_path.induct)
  case (1 new ns)
  then show ?case by simp
next
  case (2 new i p ns)
  show ?case
  proof (cases "i < length ns")
    case False
    with 2(2) show ?thesis by simp
  next
    case True
    show ?thesis
    proof (cases "ns ! i")
      case (Text s)
      with True 2(2) show ?thesis by simp
    next
      case (Elem e' cs')
      from 2(2) obtain j r where q: "q = j # r" by (cases q) auto
      show ?thesis
      proof (cases "j = i")
        case False
        with 2(2) True Elem q show ?thesis by (auto split: if_splits)
      next
        case j: True
        show ?thesis
        proof (cases "r = []")
          case True
          with 2(2) \<open>i < length ns\<close> Elem q j show ?thesis by auto
        next
          case r: False
          with 2(2) True Elem q j have sub: "node_at_path cs' r = Some (Elem e cs)" by simp
          show ?thesis
          proof (cases "p = []")
            case True
            from sub obtain k r' where "r = k # r'" by (cases r) auto
            with sub True \<open>i < length ns\<close> Elem q j r show ?thesis
              by (auto simp: nth_append split: if_splits)
          next
            case False
            from 2(1)[OF \<open>i < length ns\<close> Elem False sub] \<open>i < length ns\<close> Elem q j r False
            show ?thesis by auto
          qed
        qed
      qed
    qed
  qed
qed

lemma element_at_appendChild:
  "element_at d r = Some e \<Longrightarrow> element_at (append_path new p d) r = Some e"
proof -
  assume "element_at d r = Some e"
  then obtain cs where "node_at_path d (rev r) = Some (Elem e cs)"
    by (auto simp: element_at_def split: option.splits node.splits)
  from node_at_path_append_path[OF this, of new p] show ?thesis
    by (auto simp: element_at_def)
qed

lemma node_at_path_Cons_Suc [simp]:
  "node_at_path (x # ns) (Suc j # path) = node_at_path ns (j # path)"
  by simp

lemma select_elements:
  "r \<in> set (select P p i ns) \<Longrightarrow>
   \<exists>j path e cs. rev r = rev p @ (i + j) # path \<and> node_at_path ns (j # path) = Some (Elem e cs) \<and> P e"
proof (induction P p i ns rule: select.induct)
  case (1 P p i)
  then show ?case by simp
next
  case (2 P p i s rest)
  then obtain j path e cs where
    "rev r = rev p @ (Suc i + j) # path" "node_at_path rest (j # path) = Some (Elem e cs)" "P e"
    by auto
  then have "rev r = rev p @ (i + Suc j) # path \<and>
             node_at_path (Text s # rest) (Suc j # path) = Some (Elem e cs) \<and> P e"
    by (simp del: node_at_path.simps add: node_at_path_Cons_Suc)
  then show ?case by blast
next
  case (3 P p i e cs rest)
  from 3(3) consider (self) "P e" "r = i # p" | (sub) "r \<in> set (select P (i # p) 0 cs)"
    | (later) "r \<in> set (select P p (Suc i) rest)"
    by (auto split: if_splits)
  then show ?case
  proof cases
    case self
    then have "rev r = rev p @ (i + 0) # [] \<and>
               node_at_path (Elem e cs # rest) (0 # []) = Some (Elem e cs) \<and> P e"
      by simp
    then show ?thesis by blast
  next
    case sub
    from 3(1)[OF sub] obtain j path e' cs' where
      a: "rev r = rev (i # p) @ (0 + j) # path" "node_at_path cs (j # path) = Some (Elem e' cs')" "P e'"
      by auto
    then have "rev r = rev p @ (i + 0) # (j # path) \<and>
               node_at_path (Elem e cs # rest) (0 # j # path) = Some (Elem e' cs') \<and> P e'"
      by simp
    then show ?thesis by blast
  next
    case later
    from 3(2)[OF later] obtain j path e' cs' where
      "rev r = rev p @ (Suc i + j) # path" "node_at_path rest (j # path) = Some (Elem e' cs')" "P e'"
      by auto
    then have "rev r = rev p @ (i + Suc j) # path \<and>
               node_at_path (Elem e cs # rest) (Suc j # path) = Some (Elem e' cs') \<and> P e'"
      by (simp del: node_at_path.simps add: node_at_path_Cons_Suc)
    then show ?thesis by blast
  qed
qed

lemma querySelectorAll_elements:
  "r \<in> set (querySelectorAll d P) \<Longrightarrow> \<exists>e. element_at d r = Some e \<and> P e"
  using select_elements[of r P "[]" 0 d]
  by (auto simp: querySelectorAll_def element_at_def)

lemma querySelector_element:
  "querySelector d P = null_ref \<or> (\<exists>e. element_at d (querySelector d P) = Some e \<and> P e)"
proof (cases "querySelectorAll d P")
  case Nil
  then show ?thesis by (simp add: querySelector_def)
next
  case (Cons r rs)
  then have "r \<in> set (querySelectorAll d P)" by simp
  from querySelectorAll_elements[OF this] Cons show ?thesis by (simp add: querySelector_def)
qed

lemma element_at_null [simp]: "element_at d null_ref = None"
  by (simp add: element_at_def null_ref_def)

lemma first_child_with_Some:
  "first_child_with P k ns = Some j \<Longrightarrow>
   k \<le> j \<and> j - k < length ns \<and> (\<exists>e cs. ns ! (j - k) = Elem e cs \<and> P e)"
proof (induction P k ns rule: first_child_with.induct)
  case (1 P i)
  then show ?case by simp
next
  case (2 P i s ns)
  then have a: "Suc i \<le> j \<and> j - Suc i < length ns \<and> (\<exists>e cs. ns ! (j - Suc i) = Elem e cs \<and> P e)"
    by simp
  then have "j - i = Suc (j - Suc i)" by arith
  with a show ?case by auto
next
  case (3 P i e cs ns)
  show ?case
  proof (cases "P e")
    case True
    with 3 show ?thesis by auto
  next
    case False
    with 3 have a: "Suc i \<le> j \<and> j - Suc i < length ns \<and> (\<exists>e cs. ns ! (j - Suc i) = Elem e cs \<and> P e)"
      by simp
    then have "j - i = Suc (j - Suc i)" by arith
    with a show ?thesis by auto
  qed
qed

lemma first_child_with_update:
  "i < length ns \<Longrightarrow> ns ! i = Elem e cs \<Longrightarrow>
   first_child_with P k (ns[i := Elem e cs']) = first_child_with P k ns"
proof (induction P k ns arbitrary: i rule: first_child_with.induct)
  case (1 P k)
  then show ?case by simp
next
  case (2 P k s ns)
  then show ?case by (cases i) auto
next
  case (3 P k e' cs'' ns)
  then show ?case by (cases i) auto
qed

lemma body_shape:
  assumes "body d \<noteq> null_ref"
  shows "\<exists>i j h cs be bcs. body d = [j, i] \<and> i < length d \<and> d ! i = Elem h cs \<and>
           j < length cs \<and> cs ! j = Elem be bcs"
proof -
  from assms have t: "tagIs d (documentElement d) ''html''"
    by (auto simp: body_def split: if_splits)
  then obtain i where i: "first_child_with (\<lambda>e. True) 0 d = Some i" and de: "documentElement d = [i]"
    by (auto simp: documentElement_def tagIs_def split: option.splits)
  from first_child_with_Some[OF i] obtain h cs where h: "i < length d" "d ! i = Elem h cs"
    by auto
  then have cn: "childNodes d [i] = cs" by (simp add: childNodes_def)
  from assms t de cn obtain j where
    j: "first_child_with (\<lambda>e. tagName e = ''body'' \<or> tagName e = ''frameset'') 0 cs = Some j"
    and b: "body d = [j, i]"
    by (auto simp: body_def null_ref_def split: option.splits)
  from first_child_with_Some[OF j] obtain be bcs where "j < length cs" "cs ! j = Elem be bcs"
    by auto
  with b h show ?thesis by blast
qed

lemma body_append_path:
  assumes "body d \<noteq> null_ref"
  shows "body (append_path new (rev (body d)) d) = body d"
proof -
  from body_shape[OF assms] obtain i j h cs be bcs where
    b: "body d = [j, i]" and i: "i < length d" "d ! i = Elem h cs"
    and j: "j < length cs" "cs ! j = Elem be bcs"
    by blast
  let ?cs' = "cs[j := Elem be (bcs @ new)]"
  let ?d' = "d[i := Elem h ?cs']"
  have d': "append_path new (rev (body d)) d = ?d'"
    using b i j by simp
  have de: "documentElement ?d' = documentElement d"
    using i by (simp add: documentElement_def first_child_with_update)
  from assms have "tagIs d (documentElement d) ''html''"
    by (auto simp: body_def split: if_splits)
  then obtain k where k: "documentElement d = [k]"
    by (auto simp: documentElement_def tagIs_def split: option.splits)
  from b k assms have ki: "k = i"
    by (auto simp: body_def split: if_splits option.splits)
  have tag: "tagIs ?d' [i] ''html'' = tagIs d [i] ''html''"
    using i by (simp add: tagIs_def element_at_def)
  have cn: "childNodes ?d' [i] = ?cs'" "childNodes d [i] = cs"
    using i by (simp_all add: childNodes_def)
  show ?thesis
    unfolding d' using j
    by (simp add: body_def de k ki tag cn first_child_with_update cong: option.case_cong)
qed

lemma body_element_path: "body d \<noteq> null_ref \<Longrightarrow> element_path d (rev (body d))"
  using body_shape[of d] by (auto simp: element_path_def)

lemma has_class_created [simp]:
  "has_class ''GWA-rect'' (created t ''GWA-rect'' st)"
  "has_class ''GWA-label'' (created t ''GWA-label'' st)"
  "\<not> has_class ''GWA-label'' (created t ''GWA-rect'' st)"
  "\<not> has_class ''GWA-rect'' (created t ''GWA-label'' st)"
  by (simp_all add: has_class_def created_def attr_def class_space_def)

lemma attr_created: "m \<noteq> ''class'' \<Longrightarrow> attr (created t c st) m = None"
  by (simp add: attr_def created_def)

lemma well_made_000: "well_made ''data-bbox-gwa-id'' rect_node_000 label_node_000"
  by (simp add: well_made_def rect_node_000_def label_node_000_def attr_created)

lemma well_made_js: "well_made ''data-gwa-id'' rect_node_js label_node_js"
  by (simp add: well_made_def rect_node_js_def label_node_js_def attr_created)

lemma free_of_overlay_nodes:
  "well_made m rnode lnode \<Longrightarrow> free_of (\<lambda>e. attr e m = Some v) (overlay_nodes m rnode lnode w d i)"
  by (auto simp: well_made_def overlay_nodes_def split: option.splits)

lemma free_of_concat:
  "(\<And>x. x \<in> set xs \<Longrightarrow> free_of P (f x)) \<Longrightarrow> free_of P (concat (map f xs))"
  by (induction xs) simp_all

lemma resolve_append_path:
  "(\<And>v. free_of (\<lambda>e. attr e m = Some v) ovs) \<Longrightarrow> resolve m (append_path ovs p d) i = resolve m d i"
  by (simp add: resolve_def querySelector_def querySelectorAll_def select_append_path)

lemma resolved_element_append_path:
  assumes "\<And>v. free_of (\<lambda>e. attr e m = Some v) ovs"
  shows "element_at (append_path ovs p d) (resolve m (append_path ovs p d) i) =
         element_at d (resolve m d i)"
proof (cases "element_at d (resolve m d i)")
  case None
  with querySelector_element[of d "\<lambda>e. attr e m = Some (''gwa-element-'' @ js_toString i)"]
  have "resolve m d i = null_ref" by (auto simp: resolve_def)
  then show ?thesis by (simp add: resolve_append_path assms)
next
  case (Some t)
  then show ?thesis by (simp add: resolve_append_path assms element_at_appendChild)
qed

lemma draw_index_append_path:
  assumes wm: "well_made m rnode lnode" and b: "body d \<noteq> null_ref"
    and ovs: "\<And>v. free_of (\<lambda>e. attr e m = Some v) ovs"
  shows "draw_index m rnode lnode w (append_path ovs (rev (body d)) d) i =
         Inr (append_path (ovs @ overlay_nodes m rnode lnode w d i) (rev (body d)) d)"
proof (cases "element_at d (resolve m d i)")
  case None
  then show ?thesis
    by (simp add: draw_index_def resolved_element_append_path ovs overlay_nodes_def)
next
  case (Some t)
  have b1: "body (append_path ovs (rev (body d)) d) = body d"
    by (rule body_append_path[OF b])
  have b2: "body (append_path (ovs @ [rnode w t i]) (rev (body d)) d) = body d"
    by (rule body_append_path[OF b])
  show ?thesis
    using Some b
    by (simp add: draw_index_def resolved_element_append_path ovs overlay_nodes_def b1 b2
        appendChild_def append_path_append Let_def)
qed

lemma draw_run:
  assumes wm: "well_made m rnode lnode" and b: "body d \<noteq> null_ref"
  shows "(\<And>v. free_of (\<lambda>e. attr e m = Some v) ovs) \<Longrightarrow>
         forEach (draw_index m rnode lnode w) (append_path ovs (rev (body d)) d) indices =
         Inr (append_path (ovs @ concat (map (overlay_nodes m rnode lnode w d) indices)) (rev (body d)) d)"
proof (induction indices arbitrary: ovs)
  case Nil
  show ?case by simp
next
  case (Cons i indices)
  have "\<And>v. free_of (\<lambda>e. attr e m = Some v) (ovs @ overlay_nodes m rnode lnode w d i)"
    using Cons.prems free_of_overlay_nodes[OF wm] by simp
  from Cons.IH[OF this] show ?case
    by (simp add: draw_index_append_path[OF wm b Cons.prems])
qed

lemma draw_run_no_body:
  assumes "body d = null_ref"
  shows "forEach (draw_index m rnode lnode w) d indices =
         (if drawn m d indices = [] then Inr d else Inl TypeError)"
  using assms by (induction indices) (auto simp: draw_index_def drawn_def split: option.splits)

section \<open>The renderer\<close>

lemma draw_explicit_body:
  assumes wm: "well_made m rnode lnode" and ne: "indices \<noteq> []"
    and b: "body (clear_annotations d) \<noteq> null_ref"
  shows "draw m rnode lnode w d (Some indices) =
         Inr (appendChildren (clear_annotations d) (body (clear_annotations d))
                (concat (map (overlay_nodes m rnode lnode w (clear_annotations d)) indices)),
              length indices)"
proof -
  from ne obtain i rest where i: "indices = i # rest" by (cases indices) auto
  have "forEach (draw_index m rnode lnode w)
          (append_path [] (rev (body (clear_annotations d))) (clear_annotations d)) indices =
        Inr (append_path ([] @ concat (map (overlay_nodes m rnode lnode w (clear_annotations d)) indices))
               (rev (body (clear_annotations d))) (clear_annotations d))"
    by (rule draw_run[OF wm b]) simp
  then have "forEach (draw_index m rnode lnode w) (clear_annotations d) indices =
        Inr (append_path (concat (map (overlay_nodes m rnode lnode w (clear_annotations d)) indices))
               (rev (body (clear_annotations d))) (clear_annotations d))"
    by simp
  then show ?thesis
    unfolding i by (simp add: draw_def appendChildren_def)
qed

lemma draw_explicit_no_body:
  assumes ne: "indices \<noteq> []" and b: "body (clear_annotations d) = null_ref"
  shows "draw m rnode lnode w d (Some indices) =
         (if drawn m (clear_annotations d) indices = [] then Inr (clear_annotations d, length indices)
          else Inl TypeError)"
proof -
  from ne obtain i rest where i: "indices = i # rest" by (cases indices) auto
  show ?thesis
    unfolding i using draw_run_no_body[OF b, of m rnode lnode w "i # rest"]
    by (simp add: draw_def)
qed

lemma clear_annotations_free:
  "free_of (has_class ''GWA-rect'') (clear_annotations d)"
  "free_of (has_class ''GWA-label'') (clear_annotations d)"
  by (simp_all add: clear_annotations_def removeElementsByClass_def free_of_remove_same
      free_of_remove_other)

lemma clear_annotations_idem [simp]: "clear_annotations (clear_annotations d) = clear_annotations d"
  using clear_annotations_free[of d]
  by (simp add: clear_annotations_def[of "clear_annotations d"] removeElementsByClass_def
      free_of_remove_id)

lemma overlays_removed:
  assumes "well_made m rnode lnode"
  shows "remove_matching (has_class ''GWA-label'')
           (remove_matching (has_class ''GWA-rect'')
              (concat (map (overlay_nodes m rnode lnode w d) indices))) = []"
proof (induction indices)
  case Nil
  show ?case by simp
next
  case (Cons i indices)
  have "remove_matching (has_class ''GWA-label'')
           (remove_matching (has_class ''GWA-rect'') (overlay_nodes m rnode lnode w d i)) = []"
    using assms by (auto simp: well_made_def overlay_nodes_def split: option.splits)
  with Cons show ?case by simp
qed

lemma clear_appendChildren:
  assumes "well_made m rnode lnode"
  shows "clear_annotations
           (appendChildren (clear_annotations d) p
              (concat (map (overlay_nodes m rnode lnode w d0) indices))) = clear_annotations d"
proof -
  let ?d1 = "clear_annotations d"
  let ?ovs = "concat (map (overlay_nodes m rnode lnode w d0) indices)"
  have "remove_matching (has_class ''GWA-rect'') (append_path ?ovs (rev p) ?d1) =
        append_path (remove_matching (has_class ''GWA-rect'') ?ovs) (rev p) ?d1"
    by (rule remove_matching_append_path[OF clear_annotations_free(1)])
  moreover have "remove_matching (has_class ''GWA-label'')
          (append_path (remove_matching (has_class ''GWA-rect'') ?ovs) (rev p) ?d1) =
        append_path (remove_matching (has_class ''GWA-label'')
          (remove_matching (has_class ''GWA-rect'') ?ovs)) (rev p) ?d1"
    by (rule remove_matching_append_path[OF clear_annotations_free(2)])
  ultimately have "clear_annotations (append_path ?ovs (rev p) ?d1) = ?d1"
    unfolding clear_annotations_def[of "append_path _ _ _"] removeElementsByClass_def
    by (simp add: overlays_removed[OF assms])
  then show ?thesis by (simp add: appendChildren_def)
qed

lemma overlay_label_texts:
  assumes "well_made m rnode lnode"
  shows "texts_where (has_class ''GWA-label'') (concat (map (overlay_nodes m rnode lnode w d) indices)) =
           map js_toString (drawn m d indices)"
proof (induction indices)
  case Nil
  show ?case by (simp add: drawn_def)
next
  case (Cons i indices)
  then show ?case
    using assms by (auto simp: well_made_def overlay_nodes_def drawn_def split: option.splits)
qed

lemma overlay_rect_texts:
  assumes "well_made m rnode lnode"
  shows "texts_where (has_class ''GWA-rect'') (concat (map (overlay_nodes m rnode lnode w d) indices)) =
           map (\<lambda>index. []) (drawn m d indices)"
proof (induction indices)
  case Nil
  show ?case by (simp add: drawn_def)
next
  case (Cons i indices)
  then show ?case
    using assms by (auto simp: well_made_def overlay_nodes_def drawn_def split: option.splits)
qed

lemma draw_twice:
  assumes wm: "well_made m rnode lnode" and ne: "indices \<noteq> []"
    and res: "draw m rnode lnode w d (Some indices) = Inr (d', n)"
  shows "draw m rnode lnode w d' (Some indices) = Inr (d', n) \<and>
         texts_where (has_class ''GWA-label'') d' = map js_toString (drawn m (clear_annotations d) indices) \<and>
         texts_where (has_class ''GWA-rect'') d' = map (\<lambda>index. []) (drawn m (clear_annotations d) indices)"
proof (cases "body (clear_annotations d) = null_ref")
  case True
  from res draw_explicit_no_body[OF ne True, of m rnode lnode w]
  have d': "d' = clear_annotations d" and n: "n = length indices"
    and dr: "drawn m (clear_annotations d) indices = []"
    by (auto split: if_splits)
  have "body (clear_annotations d') = null_ref" using True d' by simp
  from draw_explicit_no_body[OF ne this, of m rnode lnode w] show ?thesis
    using d' n dr clear_annotations_free[of d] by (simp add: free_of_texts)
next
  case False
  let ?d1 = "clear_annotations d"
  let ?ovs = "concat (map (overlay_nodes m rnode lnode w ?d1) indices)"
  from res draw_explicit_body[OF wm ne False, of w]
  have d': "d' = appendChildren ?d1 (body ?d1) ?ovs" and n: "n = length indices"
    by simp_all
  have c: "clear_annotations d' = ?d1"
    unfolding d' by (rule clear_appendChildren[OF wm])
  have again: "draw m rnode lnode w d' (Some indices) = Inr (d', n)"
    using draw_explicit_body[OF wm ne, of d' w] False by (simp add: c d'[symmetric] n)
  have ep: "element_path ?d1 (rev (body ?d1))" by (rule body_element_path[OF False])
  have "texts_where (has_class ''GWA-label'') d' = texts_where (has_class ''GWA-label'') ?ovs"
    unfolding d' appendChildren_def
    by (rule texts_where_append_path[OF clear_annotations_free(2) ep])
  moreover have "texts_where (has_class ''GWA-rect'') d' = texts_where (has_class ''GWA-rect'') ?ovs"
    unfolding d' appendChildren_def
    by (rule texts_where_append_path[OF clear_annotations_free(1) ep])
  ultimately show ?thesis
    using again by (simp add: overlay_label_texts[OF wm] overlay_rect_texts[OF wm])
qed

section \<open>Marker attributes after a scan\<close>

lemma filter_delete_same: "filter (\<lambda>kv. fst kv = k) (AList.delete k al) = []"
  by (induction al) auto

lemma filter_delete_le:
  "length (filter (\<lambda>kv. fst kv = k) (AList.delete k' al)) \<le> length (filter (\<lambda>kv. fst kv = k) al)"
  by (induction al) auto

lemma filter_update_other:
  "k \<noteq> k' \<Longrightarrow> filter (\<lambda>kv. fst kv = k) (AList.update k' v al) = filter (\<lambda>kv. fst kv = k) al"
  by (induction al) auto

lemma filter_update_same:
  "length (filter (\<lambda>kv. fst kv = k) (AList.update k v al)) =
     (if filter (\<lambda>kv. fst kv = k) al = [] then 1 else length (filter (\<lambda>kv. fst kv = k) al))"
  by (induction al) auto

lemma not_twice_marked_update:
  "\<not> twice_marked e \<Longrightarrow> \<not> twice_marked (e\<lparr>attributes := AList.update k v (attributes e)\<rparr>)"
proof -
  assume a: "\<not> twice_marked e"
  have "length (filter (\<lambda>kv. fst kv = k') (AList.update k v (attributes e))) \<le> 1"
    if "length (filter (\<lambda>kv. fst kv = k') (attributes e)) \<le> 1" for k'
    using that by (cases "k' = k") (simp_all add: filter_update_other filter_update_same)
  with a show ?thesis by (simp add: twice_marked_def marker_count_def not_less)
qed

lemma not_twice_marked_unmark: "\<not> twice_marked (unmark e)"
proof -
  have "filter (\<lambda>kv. fst kv = ''data-bbox-gwa-id'')
          (AList.delete ''data-bbox-gwa-id'' (AList.delete ''data-gwa-id'' (attributes e))) = []"
    by (rule filter_delete_same)
  moreover have "filter (\<lambda>kv. fst kv = ''data-gwa-id'')
          (AList.delete ''data-bbox-gwa-id'' (AList.delete ''data-gwa-id'' (attributes e))) = []"
    using filter_delete_le[of "''data-gwa-id''" "''data-bbox-gwa-id''"
        "AList.delete ''data-gwa-id'' (attributes e)"]
    by (simp add: filter_delete_same)
  ultimately show ?thesis
    by (simp add: twice_marked_def marker_count_def unmark_def strip_element_def)
qed

lemma free_of_reset: "free_of twice_marked (reset d)"
proof -
  have "free_of twice_marked (map (strip_node ''data-bbox-gwa-id'' \<circ> strip_node ''data-gwa-id'') ns)"
    for ns
  proof (induction twice_marked ns rule: free_of.induct)
    case 1
    show ?case by simp
  next
    case (2 s ns)
    then show ?case by simp
  next
    case (3 e cs ns)
    have "\<not> twice_marked (strip_element ''data-bbox-gwa-id'' (strip_element ''data-gwa-id'' e))"
      using not_twice_marked_unmark[of e] by (simp add: unmark_def)
    with 3 show ?case by (simp add: removeAttributeAll_map)
  qed
  then show ?thesis by (simp add: reset_map)
qed

lemma free_of_update_path:
  assumes "\<And>e. \<not> P e \<Longrightarrow> \<not> P (f e)"
  shows "free_of P ns \<Longrightarrow> free_of P (update_path f p ns)"
  using assms
proof (induction f p ns rule: update_path.induct)
  case (1 f ns)
  then show ?case by simp
next
  case (2 f i p ns)
  show ?case
  proof (cases "i < length ns")
    case False
    with 2(2) show ?thesis by simp
  next
    case True
    show ?thesis
    proof (cases "ns ! i")
      case (Text s)
      with True 2(2) show ?thesis by simp
    next
      case (Elem e cs)
      from free_of_nth[OF 2(2) True Elem] have e: "\<not> P e" and cs: "free_of P cs" by simp_all
      have "\<not> P (f e)" using e 2(3) by simp
      moreover have "p \<noteq> [] \<Longrightarrow> free_of P (update_path f p cs)"
        using 2(1)[OF True Elem _ cs] 2(3) by simp
      ultimately show ?thesis
        using True Elem e cs 2(2) by (simp add: free_of_update)
    qed
  qed
qed

lemma free_of_setAttribute:
  "free_of twice_marked d \<Longrightarrow> free_of twice_marked (setAttribute d r k v)"
  unfolding setAttribute_def by (rule free_of_update_path) (rule not_twice_marked_update)

lemma visit_marks_once:
  "visit sh pt w st x = Inr st' \<Longrightarrow> free_of twice_marked (doc st) \<Longrightarrow> free_of twice_marked (doc st')"
  by (auto simp: visit_def Let_def free_of_setAttribute split: sum.splits bool.splits option.splits)

lemma forEach_visit_marks_once:
  "forEach (visit sh pt w) st xs = Inr st' \<Longrightarrow> free_of twice_marked (doc st) \<Longrightarrow>
   free_of twice_marked (doc st')"
proof (induction xs arbitrary: st)
  case Nil
  then show ?case by simp
next
  case (Cons x xs)
  from Cons.prems(1) obtain st1 where s1: "visit sh pt w st x = Inr st1"
    and rest: "forEach (visit sh pt w) st1 xs = Inr st'"
    by (auto split: sum.splits)
  from Cons.IH[OF rest visit_marks_once[OF s1 Cons.prems(2)]] show ?case .
qed

lemma scan_twice:
  assumes sh: "\<And>d r e. sh (reset d) r (unmark e) = sh d r e"
    and cand: "\<And>e. cand (unmark e) = cand e"
    and res: "scan cand sh pt w d = Inr (d', m)"
  shows "scan cand sh pt w d' = Inr (d', m) \<and> free_of twice_marked d'"
proof -
  let ?st0 = "\<lparr>doc = reset d, element_simplified_htmls = [], visibleIndex = 0\<rparr>"
  from res obtain st where f: "forEach (visit sh pt w) ?st0 (querySelectorAll d cand) = Inr st"
    and d': "d' = doc st" and m: "m = element_simplified_htmls st"
    by (auto simp: scan_def Let_def querySelectorAll_reset cand split: sum.splits)
  from forEach_visit[OF sh f, of "reset d"] have r: "reset d' = reset d" by (simp add: d')
  have q: "querySelectorAll d' cand = querySelectorAll d cand"
    using querySelectorAll_reset[of cand d'] querySelectorAll_reset[of cand d] cand r by simp
  have r': "reset (doc st) = reset d" and q': "querySelectorAll (doc st) cand = querySelectorAll d cand"
    using r q by (simp_all add: d')
  have "scan cand sh pt w d' = Inr (d', m)"
    unfolding d' m by (simp add: scan_def Let_def querySelectorAll_reset cand r' q' f)
  moreover have "free_of twice_marked d'"
    using forEach_visit_marks_once[OF f] free_of_reset[of d] by (simp add: d')
  ultimately show ?thesis by simp
qed

section \<open>The label-bearing parent\<close>

lemma contains_Cons: "contains p q \<Longrightarrow> contains p (i # q)"
  by (auto simp: contains_def Suc_diff_le)

lemma contains_refl: "r \<noteq> [] \<Longrightarrow> contains r r"
  by (simp add: contains_def)

lemma contains_tl_proper:
  assumes "contains p (tl r)"
  shows "proper_ancestor p r"
proof (cases r)
  case Nil
  with assms show ?thesis by (auto simp: contains_def)
next
  case (Cons i q)
  with assms have c: "contains p q" by simp
  then have "length p \<le> length q" by (simp add: contains_def)
  then have "p \<noteq> i # q" by auto
  with c Cons show ?thesis by (simp add: proper_ancestor_def contains_Cons)
qed

lemma commonParent_ancestor:
  "commonParent d r l = Some p \<Longrightarrow> contains p r \<and> element_at d p \<noteq> None"
  by (induction r) (auto simp: contains_Cons contains_refl split: option.splits if_splits)

lemma labelParent_ancestor:
  "labelParent d el ident r = Some p \<Longrightarrow> contains p r \<and> element_at d p \<noteq> None"
  by (induction r) (auto simp: contains_Cons contains_refl split: option.splits if_splits)

lemma getParentWithLabel_cases:
  assumes "getParentWithLabel d x = Inr p"
  shows "p = x \<or> (proper_ancestor p x \<and> element_at d p \<noteq> None)"
proof (cases "element_at d x")
  case None
  with assms show ?thesis by (simp add: getParentWithLabel_def)
next
  case (Some e)
  show ?thesis
  proof (cases "\<exists>l. element_id e \<noteq> [] \<and> query_label_for d (element_id e) = Inr l \<and> l \<noteq> null_ref
                  \<and> commonParent d (parentElement x) l = Some p")
    case True
    then obtain l where "commonParent d (parentElement x) l = Some p" by blast
    from commonParent_ancestor[OF this] show ?thesis
      by (simp add: parentElement_def contains_tl_proper)
  next
    case False
    with assms Some have "(case labelParent d x (element_id e) (parentElement x) of
            Some parent \<Rightarrow> Inr parent | None \<Rightarrow> Inr x) = (Inr p :: error + ref)"
      by (auto simp: getParentWithLabel_def split: sum.splits option.splits if_splits)
    then have "p = x \<or> labelParent d x (element_id e) (parentElement x) = Some p"
      by (auto split: option.splits)
    with labelParent_ancestor show ?thesis
      by (auto simp: parentElement_def contains_tl_proper)
  qed
qed

lemma getParentWithLabel_returns:
  assumes "\<forall>e. element_at d x = Some e \<longrightarrow> list_all css_plain (element_id e)"
  shows "\<exists>p. getParentWithLabel d x = Inr p"
proof (cases "element_at d x")
  case None
  then show ?thesis by (simp add: getParentWithLabel_def)
next
  case (Some e)
  with assms have "list_all css_plain (element_id e)" by simp
  then obtain l where "query_label_for d (element_id e) = Inr l"
    by (simp add: query_label_for_def)
  with Some show ?thesis
    by (simp add: getParentWithLabel_def split: option.splits)
qed

section \<open>The visibility filter\<close>

lemma hidden_not_visible: "isHiddenByAncestors d x \<Longrightarrow> isElementVisible w d x = Inr False"
  by (cases "element_at d x") (simp_all add: isElementVisible_def)

lemma outside_viewport_not_visible:
  assumes "element_at d x = Some e" and "\<not> isToggle e" and "\<not> inViewport w e"
  shows "isElementVisible w d x = Inr False"
  using assms by (simp add: isElementVisible_def isSmallFormElement_def Let_def)

section \<open>White space in a description\<close>

lemma collapse_from_spaceless:
  "spaceless w \<Longrightarrow> collapse_from b (w @ B) = w @ collapse_from (if w = [] then b else False) B"
  by (induction w arbitrary: b) (auto simp: spaceless_def)

lemma collapse_from_fragment:
  assumes "spaceless w" "w \<noteq> []"
  shows "\<exists>P Q. collapse_from b (A @ CHR 0x20 # w @ B) = P @ w @ Q \<and> (P = [] \<longrightarrow> b) \<and>
           (P \<noteq> [] \<longrightarrow> last P = CHR 0x20)"
proof (induction A arbitrary: b)
  case Nil
  have sp: "is_space (CHR 0x20)" by (simp add: is_space_def)
  show ?case
  proof (cases b)
    case True
    then have "collapse_from b ([] @ CHR 0x20 # w @ B) = [] @ w @ collapse_from False B"
      using assms sp by (simp add: collapse_from_spaceless)
    then show ?thesis using True by blast
  next
    case False
    then have "collapse_from b ([] @ CHR 0x20 # w @ B) = [CHR 0x20] @ w @ collapse_from False B"
      using assms sp by (simp add: collapse_from_spaceless)
    then show ?thesis by (metis last.simps not_Cons_self2)
  qed
next
  case (Cons c A)
  show ?case
  proof (cases "is_space c")
    case True
    show ?thesis
    proof (cases b)
      case b: True
      from Cons[of True] obtain P Q where
        "collapse_from True (A @ CHR 0x20 # w @ B) = P @ w @ Q" "P \<noteq> [] \<longrightarrow> last P = CHR 0x20"
        by blast
      then show ?thesis using True b by auto
    next
      case b: False
      from Cons[of True] obtain P Q where
        PQ: "collapse_from True (A @ CHR 0x20 # w @ B) = P @ w @ Q" "P \<noteq> [] \<longrightarrow> last P = CHR 0x20"
        by blast
      have "collapse_from b ((c # A) @ CHR 0x20 # w @ B) = (CHR 0x20 # P) @ w @ Q"
        using True b PQ by simp
      moreover have "last (CHR 0x20 # P) = CHR 0x20" using PQ(2) by simp
      ultimately show ?thesis by blast
    qed
  next
    case False
    from Cons[of False] obtain P Q where
      PQ: "collapse_from False (A @ CHR 0x20 # w @ B) = P @ w @ Q" "P \<noteq> []" "last P = CHR 0x20"
      by blast
    have "collapse_from b ((c # A) @ CHR 0x20 # w @ B) = (c # P) @ w @ Q"
      using False PQ by simp
    moreover have "last (c # P) = CHR 0x20" using PQ by simp
    ultimately show ?thesis by blast
  qed
qed

lemma collapse_from_snoc:
  "\<not> is_space c \<Longrightarrow> collapse_from b (xs @ [c]) = collapse_from b xs @ [c]"
  by (induction xs arbitrary: b) auto

lemma trim_bracketed: "trim (CHR ''<'' # M @ ''>'') = CHR ''<'' # M @ ''>''"
  by (simp add: trim_def is_space_def)

text \<open>
  A word without white space that follows a space survives the normalisation of a text
  in angle brackets, with one space before it.
\<close>

lemma normalised_contains:
  assumes "spaceless w" "w \<noteq> []"
  shows "\<exists>p q. trim (collapse_whitespace (''<'' @ A @ CHR 0x20 # w @ B @ ''>'')) =
           p @ CHR 0x20 # w @ q"
proof -
  have lt: "\<not> is_space CHR ''<''" and gt: "\<not> is_space CHR ''>''" by (simp_all add: is_space_def)
  have "collapse_whitespace (''<'' @ A @ CHR 0x20 # w @ B @ ''>'') =
        CHR ''<'' # collapse_from False ((A @ CHR 0x20 # w @ B) @ ''>'')"
    using lt by (simp add: collapse_whitespace_def)
  also have "\<dots> = CHR ''<'' # collapse_from False (A @ CHR 0x20 # w @ B) @ ''>''"
    using collapse_from_snoc[OF gt, of False "A @ CHR 0x20 # w @ B"] by simp
  finally have eq: "trim (collapse_whitespace (''<'' @ A @ CHR 0x20 # w @ B @ ''>'')) =
      CHR ''<'' # collapse_from False (A @ CHR 0x20 # w @ B) @ ''>''"
    by (simp only: trim_bracketed)
  from collapse_from_fragment[OF assms, of False A B] obtain P Q where
    PQ: "collapse_from False (A @ CHR 0x20 # w @ B) = P @ w @ Q" "P \<noteq> []" "last P = CHR 0x20"
    by blast
  then have "P = butlast P @ [CHR 0x20]" by (metis append_butlast_last_id)
  then have "collapse_from False (A @ CHR 0x20 # w @ B) = butlast P @ CHR 0x20 # w @ Q"
    using PQ(1) by (metis append.assoc append_Cons append_Nil)
  then have "trim (collapse_whitespace (''<'' @ A @ CHR 0x20 # w @ B @ ''>'')) =
      (CHR ''<'' # butlast P) @ CHR 0x20 # w @ (Q @ ''>'')"
    using eq by simp
  then show ?thesis by blast
qed

lemma attrs_002_spaceless: "a \<in> set attrs_002 \<Longrightarrow> spaceless a"
  by (auto simp: attrs_002_def spaceless_def is_space_def)

lemma shown_attribute_spaceless:
  "spaceless a \<Longrightarrow> spaceless v \<Longrightarrow> spaceless (a @ ''='' @ [CHR 0x22] @ v @ [CHR 0x22])"
  by (simp add: spaceless_def is_space_def)

text \<open>
  The description is the normalised text of a tag in which every attribute of the list
  has its place.
\<close>

lemma description_around:
  assumes "simplified_html_002 d x e = Inr s" "a \<in> set attrs_002"
  shows "\<exists>A B. s = trim (collapse_whitespace (''<'' @ A @ attribute_text_002 e a @ B @ ''>''))"
proof -
  from assms(1) obtain t where t: "innerText_002 d x e = Inr t"
    by (auto simp: simplified_html_002_def split: sum.splits)
  from assms(2) obtain l r where lr: "attrs_002 = l @ a # r" by (meson split_list)
  have "concat (map (attribute_text_002 e) (l @ a # r)) =
      concat (map (attribute_text_002 e) l) @ attribute_text_002 e a @
      concat (map (attribute_text_002 e) r)"
    by simp
  then have "concat (map (attribute_text_002 e) attrs_002) =
      concat (map (attribute_text_002 e) l) @ attribute_text_002 e a @
      concat (map (attribute_text_002 e) r)"
    by (simp only: lr)
  then have "s = trim (collapse_whitespace (''<'' @ (tagName e @ concat (map (attribute_text_002 e) l)) @
      attribute_text_002 e a @ (concat (map (attribute_text_002 e) r) @ ''>'' @ t @ ''</'' @ tagName e) @ ''>''))"
    using simplified_html_002_shape[OF t] assms(1) by simp
  then show ?thesis by blast
qed

lemma description_shows:
  assumes "simplified_html_002 d x e = Inr s" "a \<in> set attrs_002"
    "attribute_text_002 e a = shown_attribute a v"
  shows "\<exists>p q. s = trim (collapse_whitespace (p @ shown_attribute a v @ q))"
    "spaceless v \<Longrightarrow> \<exists>p q. s = p @ shown_attribute a v @ q"
proof -
  from description_around[OF assms(1,2)] obtain A B where
    s: "s = trim (collapse_whitespace (''<'' @ A @ shown_attribute a v @ B @ ''>''))"
    using assms(3) by auto
  then have "s = trim (collapse_whitespace ((''<'' @ A) @ shown_attribute a v @ (B @ ''>'')))" by simp
  then show "\<exists>p q. s = trim (collapse_whitespace (p @ shown_attribute a v @ q))" by blast
  assume "spaceless v"
  then have pl: "spaceless (a @ ''='' @ [CHR 0x22] @ v @ [CHR 0x22])"
    using attrs_002_spaceless[OF assms(2)] by (rule_tac shown_attribute_spaceless)
  have ne: "a @ ''='' @ [CHR 0x22] @ v @ [CHR 0x22] \<noteq> []" by simp
  have sh: "shown_attribute a v = CHR 0x20 # (a @ ''='' @ [CHR 0x22] @ v @ [CHR 0x22])"
    by (simp add: shown_attribute_def)
  from normalised_contains[OF pl ne, of A B] show "\<exists>p q. s = p @ shown_attribute a v @ q"
    unfolding s sh by simp
qed

lemma attribute_text_002_written:
  assumes "attr e a = Some v"
  shows "length v > 50 \<Longrightarrow> attribute_text_002 e a = shown_attribute a (take 47 v @ ''...'')"
    "v \<noteq> [] \<Longrightarrow> length v \<le> 50 \<Longrightarrow> attribute_text_002 e a = shown_attribute a v"
    "v = [] \<Longrightarrow> a \<in> set boolean_attrs \<Longrightarrow> attribute_text_002 e a = shown_attribute a ''true''"
    "v = [] \<Longrightarrow> a \<in> set [''value'', ''placeholder'', ''title'', ''alt'', ''href''] \<Longrightarrow>
       attribute_text_002 e a = shown_attribute a []"
    "v = [] \<Longrightarrow> a \<notin> set boolean_attrs \<Longrightarrow>
     a \<notin> set [''value'', ''placeholder'', ''title'', ''alt'', ''href''] \<Longrightarrow>
       attribute_text_002 e a = []"
proof -
  show "length v > 50 \<Longrightarrow> attribute_text_002 e a = shown_attribute a (take 47 v @ ''...'')"
    using assms
    by (auto simp: attribute_text_002_def written_attribute_def truncate_value_def
        shown_attribute_def)
  show "v \<noteq> [] \<Longrightarrow> length v \<le> 50 \<Longrightarrow> attribute_text_002 e a = shown_attribute a v"
    using assms
    by (simp add: attribute_text_002_def written_attribute_def truncate_value_def
        shown_attribute_def)
  show "v = [] \<Longrightarrow> a \<in> set boolean_attrs \<Longrightarrow> attribute_text_002 e a = shown_attribute a ''true''"
    using assms
    by (simp add: attribute_text_002_def written_attribute_def truncate_value_def
        shown_attribute_def)
  show "attribute_text_002 e a = shown_attribute a []"
    if "v = []" "a \<in> set [''value'', ''placeholder'', ''title'', ''alt'', ''href'']"
  proof -
    from that(2) have "a \<notin> set boolean_attrs" by (auto simp: boolean_attrs_def)
    moreover from that(2) have "a = ''value'' \<or> a = ''alt'' \<or> a = ''placeholder'' \<or>
        a = ''title'' \<or> a = ''href''"
      by auto
    ultimately show ?thesis
      using assms that(1)
      by (simp add: attribute_text_002_def written_attribute_def truncate_value_def
          shown_attribute_def)
  qed
  show "attribute_text_002 e a = []"
    if "v = []" "a \<notin> set boolean_attrs"
      "a \<notin> set [''value'', ''placeholder'', ''title'', ''alt'', ''href'']"
  proof -
    from that(3) have "\<not> (a = ''value'' \<or> a = ''alt'' \<or> a = ''placeholder'' \<or>
        a = ''title'' \<or> a = ''href'')"
      by auto
    then show ?thesis
      using assms that(1,2) by (simp add: attribute_text_002_def)
  qed
qed

lemma spaceless_truncated: "spaceless v \<Longrightarrow> spaceless (take 47 v @ ''...'')"
  by (auto simp: spaceless_def is_space_def list_all_iff dest: in_set_takeD)

section \<open>Claims\<close>

subsection \<open>C1: density of handles\<close>

text \<open>
  C1 (density of handles). When a scan returns, the handles of the returned map are
  exactly 0, 1, ..., N-1 in this order, where N is the number of candidates that pass the
  visibility filter, and handle \<open>i\<close> carries the description of the \<open>i\<close>-th such
  candidate in document order. This holds for the simple and for the rich indexer.
\<close>

theorem scan_handles_dense:
  "(scan_001 w d = Inr (d', m) \<longrightarrow>
      map fst m = [0..<length (visibleElements w d (querySelectorAll d candidate_001))] \<and>
      map (Inr \<circ> snd) m =
        map (describe simplified_html_001 d) (visibleElements w d (querySelectorAll d candidate_001))) \<and>
   (scan_002 w d = Inr (d', m) \<longrightarrow>
      map fst m = [0..<length (visibleElements w d (querySelectorAll d candidate_002))] \<and>
      map (Inr \<circ> snd) m =
        map (describe simplified_html_002 d) (visibleElements w d (querySelectorAll d candidate_002)))"
proof -
  have "scan candidate_001 simplified_html_001 primaryTarget_001 w d = Inr (d', m) \<Longrightarrow>
      map fst m = [0..<length (visibleElements w d (querySelectorAll d candidate_001))] \<and>
      map (Inr \<circ> snd) m =
        map (describe simplified_html_001 d) (visibleElements w d (querySelectorAll d candidate_001))"
    by (rule scan_dense) (simp_all add: simplified_html_001_reset)
  moreover have "scan candidate_002 simplified_html_002 primaryTarget_002 w d = Inr (d', m) \<Longrightarrow>
      map fst m = [0..<length (visibleElements w d (querySelectorAll d candidate_002))] \<and>
      map (Inr \<circ> snd) m =
        map (describe simplified_html_002 d) (visibleElements w d (querySelectorAll d candidate_002))"
    by (rule scan_dense) (simp_all add: simplified_html_002_reset)
  ultimately show ?thesis
    unfolding scan_001_def scan_002_def by blast
qed

lemma scan_001_page_submit:
  "scan_001 window_submit page_submit =
     Inr (page_submit_marked, [(0, ''<button>Submit</button>''), (1, ''<a>Home</a>'')])"
  by code_simp

lemma scan_002_page_submit:
  "scan_002 window_submit page_submit =
     Inr (page_submit_marked, [(0, ''<button>Submit</button>''), (1, ''<a>Home</a>'')])"
  by code_simp

theorem scan_handles_dense_witness:
  "scan_001 window_submit page_submit =
     Inr (page_submit_marked, [(0, ''<button>Submit</button>''), (1, ''<a>Home</a>'')]) \<and>
   scan_002 window_submit page_submit =
     Inr (page_submit_marked, [(0, ''<button>Submit</button>''), (1, ''<a>Home</a>'')]) \<and>
   map fst [(0::nat, ''<button>Submit</button>''), (1, ''<a>Home</a>'')] =
     [0..<length (visibleElements window_submit page_submit
                    (querySelectorAll page_submit candidate_001))] \<and>
   map (Inr \<circ> snd) [(0::nat, ''<button>Submit</button>''), (1, ''<a>Home</a>'')] =
     map (describe simplified_html_001 page_submit)
       (visibleElements window_submit page_submit (querySelectorAll page_submit candidate_001)) \<and>
   map fst [(0::nat, ''<button>Submit</button>''), (1, ''<a>Home</a>'')] =
     [0..<length (visibleElements window_submit page_submit
                    (querySelectorAll page_submit candidate_002))] \<and>
   map (Inr \<circ> snd) [(0::nat, ''<button>Submit</button>''), (1, ''<a>Home</a>'')] =
     map (describe simplified_html_002 page_submit)
       (visibleElements window_submit page_submit (querySelectorAll page_submit candidate_002))"
  using scan_handles_dense[of window_submit page_submit page_submit_marked
      "[(0, ''<button>Submit</button>''), (1, ''<a>Home</a>'')]"]
    scan_001_page_submit scan_002_page_submit
  by blast

subsection \<open>C2: handles of the map and of the bbox markers\<close>

lemma scan_001_page_shared_label:
  "scan_001 window_shared_label page_shared_label =
     Inr (page_shared_label_marked, [(0, ''<input>Pick</input>''), (1, ''<input>Pick</input>'')])"
  by code_simp

text \<open>
  C2 fails on the code where two visible form controls have the same label-bearing
  parent. On \<open>page_shared_label\<close> both indexers return the handles 0 and 1, the bbox
  marker of handle 1 overwrites the bbox marker of handle 0 on the label, and the
  renderer resolves handle 0 to no element.
\<close>

theorem shared_label_loses_handle:
  "scan_001 window_shared_label page_shared_label =
     Inr (page_shared_label_marked, [(0, ''<input>Pick</input>''), (1, ''<input>Pick</input>'')]) \<and>
   scan_002 window_shared_label page_shared_label =
     Inr (page_shared_label_marked,
          [(0, ''<input type='' @ [CHR 0x22] @ ''text'' @ [CHR 0x22] @ ''>Pick</input>''),
           (1, ''<input type='' @ [CHR 0x22] @ ''text'' @ [CHR 0x22] @ ''>Pick</input>'')]) \<and>
   resolve ''data-bbox-gwa-id'' page_shared_label_marked (Num 0) = null_ref \<and>
   resolve ''data-bbox-gwa-id'' page_shared_label_marked (Num 1) = [0, 0, 0] \<and>
   querySelectorAll page_shared_label_marked (\<lambda>e. attr e ''data-bbox-gwa-id'' \<noteq> None) = [[0, 0, 0]]"
  by code_simp

subsection \<open>C3: visibility exclusion\<close>

text \<open>
  C3 fails on the code for a checkbox or radio input: the loop of lines 126-139 returns
  \<open>true\<close> before the viewport check of lines 157-164 is reached. On
  \<open>page_cut_toggle\<close> the checkbox is not entirely within the viewport, passes the
  visibility filter and receives handle 0 from both indexers.
\<close>

theorem cut_toggle_receives_handle:
  "element_at page_cut_toggle [0, 0, 0] =
     Some (visible_box ''input'' [(''type'', ''checkbox'')] 10 (-5) 20 20) \<and>
   \<not> inViewport window_cut_toggle (visible_box ''input'' [(''type'', ''checkbox'')] 10 (-5) 20 20) \<and>
   isElementVisible window_cut_toggle page_cut_toggle [0, 0, 0] = Inr True \<and>
   scan_001 window_cut_toggle page_cut_toggle =
     Inr (page_cut_toggle_marked, [(0, ''<input></input>'')]) \<and>
   scan_002 window_cut_toggle page_cut_toggle =
     Inr (page_cut_toggle_marked,
          [(0, ''<input type='' @ [CHR 0x22] @ ''checkbox'' @ [CHR 0x22] @ ''></input>'')])"
  by code_simp

subsection \<open>C4: small toggles\<close>

text \<open>
  C4, as amended. A checkbox or radio input of at most 1 by 1 pixels that is not hidden
  and accepts pointer events passes the visibility filter when its label-bearing parent
  has a width and a height above 1 pixel and the hit test at its centre lands on a label
  whose \<^verbatim>\<open>for\<close> is its id or on a node that contains it; it is excluded when its
  label-bearing parent is another node than the input itself and the width or the height
  of that parent is at most 1 pixel.
\<close>

theorem small_toggle_exemption:
  assumes "element_at d x = Some e" and "isSmallFormElement e"
    and "\<not> isHiddenByAncestors d x" and "pointerEvents e \<noteq> ''none''"
    and "getParentWithLabel d x = Inr p" and "element_at d p = Some pe"
  shows "(rect_width pe > 1 \<and> rect_height pe > 1 \<and>
          elementFromPoint w (rect_left e + rect_width e / 2) (rect_top e + rect_height e / 2) = h \<and>
          element_at d h = Some he \<and>
          ((tagName he = ''label'' \<and> attr he ''for'' = Some (element_id e)) \<or> contains h x)
          \<longrightarrow> isElementVisible w d x = Inr True) \<and>
         (p \<noteq> x \<and> (rect_width pe \<le> 1 \<or> rect_height pe \<le> 1)
          \<longrightarrow> isElementVisible w d x = Inr False)"
proof (intro conjI impI)
  assume a: "rect_width pe > 1 \<and> rect_height pe > 1 \<and>
          elementFromPoint w (rect_left e + rect_width e / 2) (rect_top e + rect_height e / 2) = h \<and>
          element_at d h = Some he \<and>
          ((tagName he = ''label'' \<and> attr he ''for'' = Some (element_id e)) \<or> contains h x)"
  then have "h \<noteq> []" by (auto simp: element_at_def)
  then obtain i q where h: "h = i # q" by (cases h) auto
  from a have hit: "hitsLabelOrContainer d x (element_id e) h"
    unfolding h by auto
  have small: "smallParentHidden d x = Inr False"
    using assms a by (simp add: smallParentHidden_def)
  from assms(2) have t: "isToggle e" by (simp add: isSmallFormElement_def)
  show "isElementVisible w d x = Inr True"
    using assms a hit small t by (simp add: isElementVisible_def)
next
  assume b: "p \<noteq> x \<and> (rect_width pe \<le> 1 \<or> rect_height pe \<le> 1)"
  have small: "smallParentHidden d x = Inr True"
    using assms b by (simp add: smallParentHidden_def)
  show "isElementVisible w d x = Inr False"
    using assms small by (simp add: isElementVisible_def)
qed

lemma page_toggle_facts:
  "element_at (page_toggle lw lh) [1, 0, 0, 0] =
     Some (visible_box ''input'' [(''type'', ''checkbox'')] 20 15 0 0)"
  "isSmallFormElement (visible_box ''input'' [(''type'', ''checkbox'')] 20 15 0 0)"
  "\<not> isHiddenByAncestors (page_toggle lw lh) [1, 0, 0, 0]"
  "pointerEvents (visible_box ''input'' [(''type'', ''checkbox'')] 20 15 0 0) \<noteq> ''none''"
  "getParentWithLabel (page_toggle lw lh) [1, 0, 0, 0] = Inr [0, 0, 0]"
  "element_at (page_toggle lw lh) [0, 0, 0] = Some (visible_box ''label'' [] 10 10 lw lh)"
  by code_simp+

theorem small_toggle_exemption_witness:
  "rect_width (visible_box ''label'' [] 10 10 100 20) > 1 \<and>
   rect_height (visible_box ''label'' [] 10 10 100 20) > 1 \<and>
   elementFromPoint window_toggle 15 20 = [0, 0, 0] \<and>
   contains [0, 0, 0] [1, 0, 0, 0] \<and>
   isElementVisible window_toggle (page_toggle 100 20) [1, 0, 0, 0] = Inr True \<and>
   [0, 0, 0] \<noteq> [1, 0, 0, (0::nat)] \<and>
   rect_width (visible_box ''label'' [] 10 10 0 0) \<le> 1 \<and>
   isElementVisible window_toggle (page_toggle 0 0) [1, 0, 0, 0] = Inr False"
proof -
  have a: "rect_width (visible_box ''label'' [] 10 10 100 20) > 1"
    "rect_height (visible_box ''label'' [] 10 10 100 20) > 1"
    "elementFromPoint window_toggle
       (rect_left (visible_box ''input'' [(''type'', ''checkbox'')] 20 15 0 0) +
        rect_width (visible_box ''input'' [(''type'', ''checkbox'')] 20 15 0 0) / 2)
       (rect_top (visible_box ''input'' [(''type'', ''checkbox'')] 20 15 0 0) +
        rect_height (visible_box ''input'' [(''type'', ''checkbox'')] 20 15 0 0) / 2) = [0, 0, 0]"
    "elementFromPoint window_toggle 15 20 = [0, 0, 0]"
    "contains [0, 0, 0] [1, 0, 0, 0]"
    "rect_width (visible_box ''label'' [] 10 10 0 0) \<le> 1"
    by code_simp+
  have ne: "[0, 0, 0] \<noteq> [1, 0, 0, (0::nat)]" by simp
  from small_toggle_exemption[OF page_toggle_facts, of 100 20 window_toggle "[0, 0, 0]"
      "visible_box ''label'' [] 10 10 100 20"]
    small_toggle_exemption[OF page_toggle_facts, of 0 0 window_toggle "[0, 0, 0]"
      "visible_box ''label'' [] 10 10 0 0"]
    a ne page_toggle_facts(6)
  show ?thesis by blast
qed

text \<open>
  C4 as stated fails where the input is its own label-bearing parent: on
  \<open>page_bare_toggle\<close> the checkbox has no label, its own width is 0, and it passes the
  visibility filter because line 106 skips the size check.
\<close>

theorem bare_toggle_is_visible:
  "element_at page_bare_toggle [0, 0, 0, 0] =
     Some (visible_box ''input'' [(''type'', ''checkbox'')] 20 15 0 0) \<and>
   isSmallFormElement (visible_box ''input'' [(''type'', ''checkbox'')] 20 15 0 0) \<and>
   getParentWithLabel page_bare_toggle [0, 0, 0, 0] = Inr [0, 0, 0, 0] \<and>
   rect_width (visible_box ''input'' [(''type'', ''checkbox'')] 20 15 0 0) \<le> 1 \<and>
   isElementVisible window_toggle page_bare_toggle [0, 0, 0, 0] = Inr True"
  by code_simp

subsection \<open>C5: idempotence\<close>


lemma draw_000_page_submit:
  "draw_000 window_submit page_submit_marked (Some [Num 0, Num 1]) =
     Inr (appendChildren page_submit_marked [0, 0]
            [rect_node_000 window_submit submit_button (Num 0),
             label_node_000 window_submit submit_button (Num 0),
             rect_node_000 window_submit home_link (Num 1),
             label_node_000 window_submit home_link (Num 1)], 2)"
  by code_simp

lemma draw_js_page_submit:
  "draw_js window_submit page_submit_marked (Some [Num 0, Num 1]) =
     Inr (appendChildren page_submit_marked [0, 0]
            [rect_node_js window_submit submit_button (Num 0),
             label_node_js window_submit submit_button (Num 0),
             rect_node_js window_submit home_link (Num 1),
             label_node_js window_submit home_link (Num 1)], 2)"
  by code_simp


subsection \<open>C6: draw without handles\<close>

lemma scan_001_page_form:
  "scan_001 window_form page_form =
     Inr (page_form_marked, [(0, ''<button>Go</button>''), (1, ''<input>Name</input>'')])"
  by code_simp

text \<open>
  C6 fails on part 000: lines 4-6 select the elements that carry \<^verbatim>\<open>data-gwa-id\<close> and
  read \<^verbatim>\<open>data-bbox-gwa-id\<close> from them. On \<open>page_form_marked\<close>, the document the indexer
  leaves of \<open>page_form\<close>, the bbox markers carry the handles 0 and 1; the default indices
  are 0 and 0, and a draw without handles puts two labels 0 and no label 1.
  \<^verbatim>\<open>draw_bounding_boxes.js\<close>, which reads the attribute it selects by, gets 0 and 1.
\<close>

theorem default_indices_miss_handle:
  "scan_001 window_form page_form =
     Inr (page_form_marked, [(0, ''<button>Go</button>''), (1, ''<input>Name</input>'')]) \<and>
   map (\<lambda>el. handle_of_attribute (getAttribute page_form_marked el ''data-bbox-gwa-id''))
     (querySelectorAll page_form_marked (\<lambda>e. attr e ''data-bbox-gwa-id'' \<noteq> None)) = [Num 0, Num 1] \<and>
   default_indices ''data-bbox-gwa-id'' page_form_marked = [Num 0, Num 0] \<and>
   map_sum id (\<lambda>r. (texts_where (has_class ''GWA-label'') (fst r), snd r))
     (draw_000 window_form page_form_marked None) = Inr ([''0'', ''0''], 2) \<and>
   default_indices ''data-gwa-id'' page_form_marked = [Num 0, Num 1]"
  by code_simp

subsection \<open>C7: skipped handles and the number returned\<close>

text \<open>
  C7. With a non-empty list of handles and a document that has a body, draw raises no
  error: it returns the document in which the body has received, for each requested
  handle in order, a rectangle and a label when the handle resolves to an element and
  nothing when it does not, together with the length of the list. A handle that resolves
  to no element leaves the document as it is. Whenever draw returns, the number is the
  length of the list of handles it worked on: the list given or, when none or an empty one
  was given, the default indices. This holds for both renderers.
\<close>

theorem draw_skips_and_counts:
  "(indices \<noteq> [] \<and> body (clear_annotations d) \<noteq> null_ref \<longrightarrow>
      draw_000 w d (Some indices) =
        Inr (appendChildren (clear_annotations d) (body (clear_annotations d))
               (concat (map (overlay_nodes ''data-bbox-gwa-id'' rect_node_000 label_node_000 w
                              (clear_annotations d)) indices)),
             length indices) \<and>
      draw_js w d (Some indices) =
        Inr (appendChildren (clear_annotations d) (body (clear_annotations d))
               (concat (map (overlay_nodes ''data-gwa-id'' rect_node_js label_node_js w
                              (clear_annotations d)) indices)),
             length indices)) \<and>
   (element_at d0 (resolve ''data-bbox-gwa-id'' d0 index) = None \<longrightarrow>
      draw_index ''data-bbox-gwa-id'' rect_node_000 label_node_000 w d0 index = Inr d0 \<and>
      overlay_nodes ''data-bbox-gwa-id'' rect_node_000 label_node_000 w d0 index = []) \<and>
   (element_at d0 (resolve ''data-gwa-id'' d0 index) = None \<longrightarrow>
      draw_index ''data-gwa-id'' rect_node_js label_node_js w d0 index = Inr d0 \<and>
      overlay_nodes ''data-gwa-id'' rect_node_js label_node_js w d0 index = []) \<and>
   (draw_000 w d given = Inr (d', n) \<longrightarrow>
      n = length (case given of Some (i # rest) \<Rightarrow> i # rest
                  | _ \<Rightarrow> default_indices ''data-bbox-gwa-id'' d)) \<and>
   (draw_js w d given = Inr (d', n) \<longrightarrow>
      n = length (case given of Some (i # rest) \<Rightarrow> i # rest
                  | _ \<Rightarrow> default_indices ''data-gwa-id'' d))"
proof (intro conjI impI)
  assume a: "indices \<noteq> [] \<and> body (clear_annotations d) \<noteq> null_ref"
  then show "draw_000 w d (Some indices) =
        Inr (appendChildren (clear_annotations d) (body (clear_annotations d))
               (concat (map (overlay_nodes ''data-bbox-gwa-id'' rect_node_000 label_node_000 w
                              (clear_annotations d)) indices)),
             length indices)"
    unfolding draw_000_def by (intro draw_explicit_body well_made_000) simp_all
  from a show "draw_js w d (Some indices) =
        Inr (appendChildren (clear_annotations d) (body (clear_annotations d))
               (concat (map (overlay_nodes ''data-gwa-id'' rect_node_js label_node_js w
                              (clear_annotations d)) indices)),
             length indices)"
    unfolding draw_js_def by (intro draw_explicit_body well_made_js) simp_all
next
  assume "element_at d0 (resolve ''data-bbox-gwa-id'' d0 index) = None"
  then show "draw_index ''data-bbox-gwa-id'' rect_node_000 label_node_000 w d0 index = Inr d0"
    and "overlay_nodes ''data-bbox-gwa-id'' rect_node_000 label_node_000 w d0 index = []"
    by (simp_all add: draw_index_def overlay_nodes_def)
next
  assume "element_at d0 (resolve ''data-gwa-id'' d0 index) = None"
  then show "draw_index ''data-gwa-id'' rect_node_js label_node_js w d0 index = Inr d0"
    and "overlay_nodes ''data-gwa-id'' rect_node_js label_node_js w d0 index = []"
    by (simp_all add: draw_index_def overlay_nodes_def)
next
  assume "draw_000 w d given = Inr (d', n)"
  then show "n = length (case given of Some (i # rest) \<Rightarrow> i # rest
                  | _ \<Rightarrow> default_indices ''data-bbox-gwa-id'' d)"
    by (auto simp: draw_000_def draw_def Let_def split: sum.splits option.splits list.splits)
next
  assume "draw_js w d given = Inr (d', n)"
  then show "n = length (case given of Some (i # rest) \<Rightarrow> i # rest
                  | _ \<Rightarrow> default_indices ''data-gwa-id'' d)"
    by (auto simp: draw_js_def draw_def Let_def split: sum.splits option.splits list.splits)
qed

lemma page_submit_marked_facts:
  "body (clear_annotations page_submit_marked) \<noteq> null_ref"
  "element_at page_submit_marked (resolve ''data-bbox-gwa-id'' page_submit_marked (Num 5)) = None"
  "element_at page_submit_marked (resolve ''data-gwa-id'' page_submit_marked (Num 5)) = None"
  "draw_000 window_submit page_submit_marked (Some [Num 0, Num 5, Num 1]) =
     Inr (appendChildren page_submit_marked [0, 0]
            [rect_node_000 window_submit submit_button (Num 0),
             label_node_000 window_submit submit_button (Num 0),
             rect_node_000 window_submit home_link (Num 1),
             label_node_000 window_submit home_link (Num 1)], 3)"
  "draw_js window_submit page_submit_marked (Some [Num 0, Num 5, Num 1]) =
     Inr (appendChildren page_submit_marked [0, 0]
            [rect_node_js window_submit submit_button (Num 0),
             label_node_js window_submit submit_button (Num 0),
             rect_node_js window_submit home_link (Num 1),
             label_node_js window_submit home_link (Num 1)], 3)"
  by code_simp+

theorem draw_skips_and_counts_witness:
  "[Num 0, Num 5, Num 1] \<noteq> [] \<and>
   body (clear_annotations page_submit_marked) \<noteq> null_ref \<and>
   element_at page_submit_marked (resolve ''data-bbox-gwa-id'' page_submit_marked (Num 5)) = None \<and>
   element_at page_submit_marked (resolve ''data-gwa-id'' page_submit_marked (Num 5)) = None \<and>
   draw_index ''data-bbox-gwa-id'' rect_node_000 label_node_000 window_submit page_submit_marked (Num 5) =
     Inr page_submit_marked \<and>
   draw_index ''data-gwa-id'' rect_node_js label_node_js window_submit page_submit_marked (Num 5) =
     Inr page_submit_marked \<and>
   draw_000 window_submit page_submit_marked (Some [Num 0, Num 5, Num 1]) =
     Inr (appendChildren (clear_annotations page_submit_marked)
            (body (clear_annotations page_submit_marked))
            (concat (map (overlay_nodes ''data-bbox-gwa-id'' rect_node_000 label_node_000 window_submit
                            (clear_annotations page_submit_marked)) [Num 0, Num 5, Num 1])),
          length [Num 0, Num 5, Num 1]) \<and>
   draw_000 window_submit page_submit_marked (Some [Num 0, Num 5, Num 1]) =
     Inr (appendChildren page_submit_marked [0, 0]
            [rect_node_000 window_submit submit_button (Num 0),
             label_node_000 window_submit submit_button (Num 0),
             rect_node_000 window_submit home_link (Num 1),
             label_node_000 window_submit home_link (Num 1)], 3) \<and>
   draw_js window_submit page_submit_marked (Some [Num 0, Num 5, Num 1]) =
     Inr (appendChildren page_submit_marked [0, 0]
            [rect_node_js window_submit submit_button (Num 0),
             label_node_js window_submit submit_button (Num 0),
             rect_node_js window_submit home_link (Num 1),
             label_node_js window_submit home_link (Num 1)], 3) \<and>
   (3::nat) = length (case Some [Num 0, Num 5, Num 1] of Some (i # rest) \<Rightarrow> i # rest
                      | _ \<Rightarrow> default_indices ''data-bbox-gwa-id'' page_submit_marked)"
proof -
  have ne: "[Num 0, Num 5, Num 1] \<noteq> []" by simp
  from draw_skips_and_counts[of "[Num 0, Num 5, Num 1]" page_submit_marked window_submit
      page_submit_marked "Num 5" "Some [Num 0, Num 5, Num 1]"
      "appendChildren page_submit_marked [0, 0]
            [rect_node_000 window_submit submit_button (Num 0),
             label_node_000 window_submit submit_button (Num 0),
             rect_node_000 window_submit home_link (Num 1),
             label_node_000 window_submit home_link (Num 1)]" 3]
    page_submit_marked_facts ne
  show ?thesis by blast
qed

subsection \<open>C8: the label text of an input\<close>


lemma page_span_facts:
  "tagName (visible_box ''input'' [(''type'', ''text'')] 10 10 100 30) = ''input''"
  "text_of_for_label page_span (visible_box ''input'' [(''type'', ''text'')] 10 10 100 30) = Inr []"
  "labelText page_span [0, 0, 0, 0] = []"
  "innerText (visible_box ''input'' [(''type'', ''text'')] 10 10 100 30) = []"
  "text_of_wrapping_label page_span [0, 0, 0, 0] = []"
  "text_of_next_span page_span [0, 0, 0, 0] = ''Name''"
  by code_simp+

lemma page_span_before_facts:
  "tagName (visible_box ''input'' [(''type'', ''text'')] 10 80 100 30) = ''input''"
  "text_of_for_label page_span_before (visible_box ''input'' [(''type'', ''text'')] 10 80 100 30) =
     Inr []"
  "labelText page_span_before [1, 0, 0, 0] = []"
  "innerText (visible_box ''input'' [(''type'', ''text'')] 10 80 100 30) = []"
  "text_of_wrapping_label page_span_before [1, 0, 0, 0] = []"
  "\<not> tagIs page_span_before (nextElementSibling page_span_before [1, 0, 0, 0]) ''span''"
  "text_of_previous_span page_span_before [1, 0, 0, 0] = ''Name''"
  by code_simp+



subsection \<open>C9: truncation of attribute values\<close>


lemma page_long_link_facts:
  "simplified_html_002 page_long_link [0, 0, 0] link_60 =
     Inr (''<a'' @ shown_attribute ''id'' ''home'' @
          shown_attribute ''href'' ''https://example.com/catalogue/items/0123456789/...'' @ ''></a>'')"
  "''href'' \<in> set attrs_002"
  "attr link_60 ''href'' = Some ''https://example.com/catalogue/items/0123456789/details?ref=1''"
  "length ''https://example.com/catalogue/items/0123456789/details?ref=1'' > 50"
  "spaceless ''https://example.com/catalogue/items/0123456789/details?ref=1''"
  "''id'' \<in> set attrs_002"
  "attr link_60 ''id'' = Some ''home''"
  "''home'' \<noteq> []"
  "length ''home'' \<le> 50"
  "spaceless ''home''"
  by code_simp+

lemma checked_box_facts:
  "simplified_html_002 page_long_link [2, 0, 0] checked_box =
     Inr (''<input'' @ shown_attribute ''type'' ''checkbox'' @
          shown_attribute ''checked'' ''true'' @ ''></input>'')"
  "''checked'' \<in> set attrs_002"
  "attr checked_box ''checked'' = Some []"
  "''checked'' \<in> set boolean_attrs"
  by code_simp+



subsection \<open>C10: the label-bearing parent\<close>

text \<open>
  C10, as amended. \<open>getParentWithLabel\<close> is a total function; for an element whose id does
  not break the selector it returns, and what it returns is the element itself or a
  proper ancestor of it that is an element of the document. So is the element that
  receives the bbox marker. (The rectangle of that ancestor need not cover the rectangle
  of the control, see the counterexample.)
\<close>

theorem label_parent_is_self_or_ancestor:
  "(element_at d x = Some e \<and> list_all css_plain (element_id e) \<longrightarrow>
      (\<exists>p. getParentWithLabel d x = Inr p)) \<and>
   (getParentWithLabel d x = Inr p \<longrightarrow>
      p = x \<or> (proper_ancestor p x \<and> element_at d p \<noteq> None)) \<and>
   (bboxTarget d x e' = Inr b \<longrightarrow>
      b = x \<or> (proper_ancestor b x \<and> element_at d b \<noteq> None))"
proof (intro conjI impI)
  assume "element_at d x = Some e \<and> list_all css_plain (element_id e)"
  then have "\<forall>e. element_at d x = Some e \<longrightarrow> list_all css_plain (element_id e)" by simp
  then show "\<exists>p. getParentWithLabel d x = Inr p"
    by (rule getParentWithLabel_returns)
next
  assume "getParentWithLabel d x = Inr p"
  then show "p = x \<or> (proper_ancestor p x \<and> element_at d p \<noteq> None)"
    by (rule getParentWithLabel_cases)
next
  assume "bboxTarget d x e' = Inr b"
  then have "b = x \<or> getParentWithLabel d x = Inr b"
    by (auto simp: bboxTarget_def split: if_splits)
  then show "b = x \<or> (proper_ancestor b x \<and> element_at d b \<noteq> None)"
    using getParentWithLabel_cases by blast
qed

lemma page_toggle_input:
  "element_at (page_toggle 100 20) [1, 0, 0, 0] =
     Some (visible_box ''input'' [(''type'', ''checkbox'')] 20 15 0 0)"
  by code_simp

lemma page_toggle_parent: "getParentWithLabel (page_toggle 100 20) [1, 0, 0, 0] = Inr [0, 0, 0]"
  by code_simp

theorem label_parent_is_self_or_ancestor_witness:
  "element_at (page_toggle 100 20) [1, 0, 0, 0] =
     Some (visible_box ''input'' [(''type'', ''checkbox'')] 20 15 0 0) \<and>
   list_all css_plain (element_id (visible_box ''input'' [(''type'', ''checkbox'')] 20 15 0 0)) \<and>
   (\<exists>p. getParentWithLabel (page_toggle 100 20) [1, 0, 0, 0] = Inr p) \<and>
   getParentWithLabel (page_toggle 100 20) [1, 0, 0, 0] = Inr [0, 0, 0] \<and>
   bboxTarget (page_toggle 100 20) [1, 0, 0, 0]
     (visible_box ''input'' [(''type'', ''checkbox'')] 20 15 0 0) = Inr [0, 0, 0] \<and>
   proper_ancestor [0, 0, 0] [1, 0, 0, 0] \<and>
   element_at (page_toggle 100 20) [0, 0, 0] \<noteq> None"
proof -
  have plain: "list_all css_plain (element_id (visible_box ''input'' [(''type'', ''checkbox'')] 20 15 0 0))"
    by code_simp
  have bbox: "bboxTarget (page_toggle 100 20) [1, 0, 0, 0]
     (visible_box ''input'' [(''type'', ''checkbox'')] 20 15 0 0) = Inr [0, 0, 0]"
    by code_simp
  have ne: "[0, 0, 0] \<noteq> [1, 0, 0, (0::nat)]" by simp
  from label_parent_is_self_or_ancestor[of "page_toggle 100 20" "[1, 0, 0, 0]"
      "visible_box ''input'' [(''type'', ''checkbox'')] 20 15 0 0" "[0, 0, 0]"
      "visible_box ''input'' [(''type'', ''checkbox'')] 20 15 0 0" "[0, 0, 0]"]
    page_toggle_input page_toggle_parent plain bbox ne
  show ?thesis by blast
qed

text \<open>
  C10 as stated fails in its last part: on \<open>page_far_label\<close> the bbox marker of the
  input goes to the label, whose rectangle does not cover the rectangle of the input.
\<close>

theorem bbox_parent_need_not_enclose:
  "bboxTarget page_far_label [1, 0, 0, 0] (visible_box ''input'' [(''type'', ''text'')] 100 100 80 30) =
     Inr [0, 0, 0] \<and>
   element_at page_far_label [1, 0, 0, 0] =
     Some (visible_box ''input'' [(''type'', ''text'')] 100 100 80 30) \<and>
   element_at page_far_label [0, 0, 0] = Some (visible_box ''label'' [] 10 10 50 20) \<and>
   \<not> encloses (visible_box ''label'' [] 10 10 50 20)
        (visible_box ''input'' [(''type'', ''text'')] 100 100 80 30)"
  by code_simp

end
